theory Spec2Isabelle
  imports Main "HOL-Library.Word"
begin

section \<open>Strings and identifiers (lib/utils.ts)\<close>

text \<open>
  JavaScript strings are modelled as \<open>string\<close>, a list of 8-bit characters: the code units
  below 256.  \<open>trim\<close> and \<open>toLowerCase\<close> are the built-ins of the language restricted to
  that range (white space: TAB, LF, VT, FF, CR, SP, NBSP; upper case: A-Z and the Latin-1
  capitals).  Timestamps (\<open>Date.now()\<close>, \<open>new Date()\<close>) are milliseconds since the epoch,
  a \<open>nat\<close>.
\<close>

definition isWhiteSpace :: "char \<Rightarrow> bool" where
  "isWhiteSpace c = ((of_char c :: nat) \<in> {9, 10, 11, 12, 13, 32, 160})"

definition trim :: "string \<Rightarrow> string" where
  "trim s = rev (dropWhile isWhiteSpace (rev (dropWhile isWhiteSpace s)))"

definition toLowerCase :: "string \<Rightarrow> string" where
  "toLowerCase s =
     map (\<lambda>c. let n = (of_char c :: nat)
              in if (65 \<le> n \<and> n \<le> 90) \<or> (192 \<le> n \<and> n \<le> 222 \<and> n \<noteq> 215)
                 then char_of (n + 32) else c) s"

definition chars :: string where
  "chars = ''abcdefghijklmnopqrstuvwxyz0123456789''"

text \<open>
  \<open>crypto.randomBytes\<close> is the only source of randomness.  It is modelled as an infinite
  tape of bytes with a read position: \<open>randomBytes n\<close> returns the next \<open>n\<close> bytes and
  advances the position.
\<close>

type_synonym entropy = "nat \<Rightarrow> 8 word"

definition randomBytes :: "nat \<Rightarrow> entropy \<Rightarrow> nat \<Rightarrow> 8 word list \<times> nat" where
  "randomBytes sz tape pos = (map (\<lambda>i. tape (pos + i)) [0..<sz], pos + sz)"

definition generateShareId :: "entropy \<Rightarrow> nat \<Rightarrow> string \<times> nat" where
  "generateShareId tape pos =
     (let len = 9;
          (randomBytesBuffer, pos') = randomBytes (len * 2) tape pos
      in (map (\<lambda>i. chars ! (unat (randomBytesBuffer ! i) mod length chars)) [0..<len], pos'))"

text \<open>The regular expression \<open>/^[a-z0-9]{9}$/\<close>.\<close>

definition isValidShareId :: "string \<Rightarrow> bool" where
  "isValidShareId ident = (length ident = 9 \<and> list_all (\<lambda>c. c \<in> set chars) ident)"

section \<open>Documents (lib/db-types.ts)\<close>

text \<open>
  An \<open>ObjectId\<close> is a \<open>nat\<close>; \<open>toString\<close> on object ids is injective, so an id and its
  string are identified (\<open>listId\<close> of an item, \<open>userId\<close> of a token).
\<close>

type_synonym ObjectId = nat

record TodoListDocument =
  list_id :: ObjectId
  userId :: "ObjectId option"
  shareId :: string
  viewId :: "string option"
  title :: string
  createdAt :: nat
  updatedAt :: nat

record TodoItemDocument =
  item_id :: ObjectId
  listId :: ObjectId
  itemText :: string
  completed :: bool
  itemOrder :: int
  itemCreatedAt :: nat
  itemUpdatedAt :: nat

datatype Permission = view | edit

definition detectPermission :: "TodoListDocument \<Rightarrow> string \<Rightarrow> Permission" where
  "detectPermission list ident = (if shareId list = ident then edit else view)"

section \<open>Attempt throttle (lib/rate-limit.ts)\<close>

record RateLimitEntry =
  count :: nat
  resetAt :: nat

type_synonym attempts = "string \<rightharpoonup> RateLimitEntry"

text \<open>
  The two module-level maps are passed in and returned.  \<open>x || d\<close> on a number is \<open>d\<close>
  when \<open>x\<close> is \<open>0\<close> (or absent), else \<open>x\<close>.
\<close>

definition checkSignupRateLimit :: "nat \<Rightarrow> string \<Rightarrow> attempts \<Rightarrow> bool \<times> attempts" where
  "checkSignupRateLimit now ip signupAttempts =
     (let entry = signupAttempts ip;
          signupAttempts1 =
            (case entry of
               Some e \<Rightarrow> if resetAt e < now then signupAttempts(ip := None) else signupAttempts
             | None \<Rightarrow> signupAttempts);
          current = signupAttempts1 ip
      in case current of
           Some c \<Rightarrow>
             if count c \<ge> 3 then (False, signupAttempts1)
             else (True, signupAttempts1(ip \<mapsto>
                     \<lparr>count = (if count c = 0 then 0 else count c) + 1,
                      resetAt = (if resetAt c = 0 then now + 60 * 60 * 1000 else resetAt c)\<rparr>))
         | None \<Rightarrow>
             (True, signupAttempts1(ip \<mapsto> \<lparr>count = 0 + 1, resetAt = now + 60 * 60 * 1000\<rparr>)))"

definition checkSigninRateLimit :: "nat \<Rightarrow> string \<Rightarrow> attempts \<Rightarrow> bool \<times> attempts" where
  "checkSigninRateLimit now email signinAttempts =
     (let normalizedEmail = trim (toLowerCase email);
          entry = signinAttempts normalizedEmail;
          signinAttempts1 =
            (case entry of
               Some e \<Rightarrow> if resetAt e < now then signinAttempts(normalizedEmail := None)
                         else signinAttempts
             | None \<Rightarrow> signinAttempts);
          current = signinAttempts1 normalizedEmail
      in case current of
           Some c \<Rightarrow>
             if count c \<ge> 5 then (False, signinAttempts1)
             else (True, signinAttempts1(normalizedEmail \<mapsto>
                     \<lparr>count = (if count c = 0 then 0 else count c) + 1,
                      resetAt = (if resetAt c = 0 then now + 15 * 60 * 1000 else resetAt c)\<rparr>))
         | None \<Rightarrow>
             (True, signinAttempts1(normalizedEmail \<mapsto>
                     \<lparr>count = 0 + 1, resetAt = now + 15 * 60 * 1000\<rparr>)))"

text \<open>
  The contract of the specification, in its words: per key a counter and a window end; an
  expired (or absent) window gives counter 0 and a window end of \<open>now + windowMs\<close>; a counter
  at or above the limit returns false without incrementing; otherwise the counter is
  incremented and the call returns true.
\<close>

definition checkAndConsume :: "string \<Rightarrow> nat \<Rightarrow> nat \<Rightarrow> nat \<Rightarrow> attempts \<Rightarrow> bool \<times> attempts" where
  "checkAndConsume key limit windowMs now m =
     (let (counter, windowEnd) =
            (case m key of
               None \<Rightarrow> (0, now + windowMs)
             | Some e \<Rightarrow> if resetAt e < now then (0, now + windowMs) else (count e, resetAt e))
      in if counter \<ge> limit then (False, m)
         else (True, m(key \<mapsto> \<lparr>count = counter + 1, resetAt = windowEnd\<rparr>)))"

text \<open>A sequence of calls with the same key, at the given times, threading the map.\<close>

fun calls :: "(nat \<Rightarrow> string \<Rightarrow> attempts \<Rightarrow> bool \<times> attempts) \<Rightarrow> nat list \<Rightarrow> string \<Rightarrow> attempts
               \<Rightarrow> bool list \<times> attempts" where
  "calls check [] key m = ([], m)"
| "calls check (t # ts) key m =
     (let (allowed, m1) = check t key m;
          (rest, m2) = calls check ts key m1
      in (allowed # rest, m2))"

section \<open>Responses and request bodies\<close>

text \<open>
  A parsed JSON value of a request body, as far as the handlers look at it: its type, its
  truthiness, and its content when it is a string, a boolean or a number.  \<open>JNum\<close> is an
  integral number, \<open>JFraction\<close> any other number, \<open>JObject\<close> an object or array, and
  \<open>JUndefined\<close> an absent field.
\<close>

datatype jsvalue = JUndefined | JNull | JBool bool | JNum int | JFraction | JStr string | JObject

fun falsy :: "jsvalue \<Rightarrow> bool" where
  "falsy JUndefined = True"
| "falsy JNull = True"
| "falsy (JBool b) = (b = False)"
| "falsy (JNum n) = (n = 0)"
| "falsy JFraction = False"
| "falsy (JStr s) = (s = [])"
| "falsy JObject = False"

record TodoList =
  api_id :: ObjectId
  api_shareId :: string
  api_viewId :: "string option"
  api_title :: string
  api_createdAt :: nat
  api_updatedAt :: nat
  permission :: "Permission option"

record TodoItem =
  api_item_id :: ObjectId
  api_text :: string
  api_completed :: bool
  api_order :: int
  api_itemCreatedAt :: nat
  api_itemUpdatedAt :: nat

record UserDocument =
  user_id :: ObjectId
  user_email :: string
  passwordHash :: string
  userCreatedAt :: nat
  userUpdatedAt :: nat

record UserAPI =
  api_user_id :: ObjectId
  api_email :: string
  api_userCreatedAt :: nat
  api_userUpdatedAt :: nat

definition serializeTodoList :: "TodoListDocument \<Rightarrow> TodoList" where
  "serializeTodoList doc =
     \<lparr>api_id = list_id doc, api_shareId = shareId doc, api_viewId = viewId doc,
      api_title = title doc, api_createdAt = createdAt doc, api_updatedAt = updatedAt doc,
      permission = None\<rparr>"

definition serializeTodoItem :: "TodoItemDocument \<Rightarrow> TodoItem" where
  "serializeTodoItem doc =
     \<lparr>api_item_id = item_id doc, api_text = itemText doc, api_completed = completed doc,
      api_order = itemOrder doc, api_itemCreatedAt = itemCreatedAt doc,
      api_itemUpdatedAt = itemUpdatedAt doc\<rparr>"

definition serializeUser :: "UserDocument \<Rightarrow> UserAPI" where
  "serializeUser user =
     \<lparr>api_user_id = user_id user, api_email = user_email user,
      api_userCreatedAt = userCreatedAt user, api_userUpdatedAt = userUpdatedAt user\<rparr>"

datatype payload =
    ErrorResponse string
  | MessageResponse string
  | GetListResponse TodoList "TodoItem list"
  | ListResponse TodoList
  | ItemResponse TodoItem
  | DeleteItemResponse bool
  | UserResponse UserAPI

text \<open>What a client observes: the status code, the JSON body, and the cookie set (if any).\<close>

record response =
  status :: nat
  body :: payload
  cookie :: "string option"

definition json :: "payload \<Rightarrow> nat \<Rightarrow> response" where
  "json b st = \<lparr>status = st, body = b, cookie = None\<rparr>"

section \<open>The store\<close>

text \<open>
  The two collections, in insertion order.  \<open>findOne\<close> returns the first document that
  matches (\<open>List.find\<close>), \<open>updateOne\<close> and \<open>deleteOne\<close> act on the first match,
  \<open>deleteMany\<close> removes every match, \<open>insertOne\<close> appends.  Store failures (connectivity)
  are not modelled.
\<close>

record db =
  listsCollection :: "TodoListDocument list"
  itemsCollection :: "TodoItemDocument list"

fun updateOne :: "('a \<Rightarrow> bool) \<Rightarrow> ('a \<Rightarrow> 'a) \<Rightarrow> 'a list \<Rightarrow> 'a list" where
  "updateOne p f [] = []"
| "updateOne p f (d # ds) = (if p d then f d # ds else d # updateOne p f ds)"

definition findOneAndUpdate :: "('a \<Rightarrow> bool) \<Rightarrow> ('a \<Rightarrow> 'a) \<Rightarrow> 'a list \<Rightarrow> 'a option \<times> 'a list" where
  "findOneAndUpdate p f ds = (map_option f (find p ds), updateOne p f ds)"

fun deleteOne :: "('a \<Rightarrow> bool) \<Rightarrow> 'a list \<Rightarrow> nat \<times> 'a list" where
  "deleteOne p [] = (0, [])"
| "deleteOne p (d # ds) =
     (if p d then (1, ds) else (let (n, ds') = deleteOne p ds in (n, d # ds')))"

definition deleteMany :: "('a \<Rightarrow> bool) \<Rightarrow> 'a list \<Rightarrow> 'a list" where
  "deleteMany p ds = filter (\<lambda>d. \<not> p d) ds"

section \<open>Authentication context (lib/middleware/auth.ts)\<close>

record AuthContext =
  auth_userId :: ObjectId
  auth_email :: string

text \<open>
  \<open>verifyToken\<close> (the JWT library, the server secret and the clock) is a parameter:
  \<open>None\<close> when it throws.  The cookie is \<open>None\<close> when the request has none.
\<close>

definition getAuthContext :: "(string \<Rightarrow> AuthContext option) \<Rightarrow> string option \<Rightarrow> AuthContext option" where
  "getAuthContext verifyToken auth_token =
     (case auth_token of
        None \<Rightarrow> None
      | Some token \<Rightarrow> if token = [] then None else verifyToken token)"

text \<open>\<open>None\<close>: the exception \<open>Authentication required\<close>.\<close>

definition requireAuth :: "(string \<Rightarrow> AuthContext option) \<Rightarrow> string option \<Rightarrow> AuthContext option" where
  "requireAuth verifyToken auth_token = getAuthContext verifyToken auth_token"

section \<open>List routes (app/api/lists/route.ts, app/api/lists/[shareId]/route.ts)\<close>

definition maxAttempts :: nat where
  "maxAttempts = 5"

text \<open>
  The \<open>do ... while (true)\<close> loop of the lazy generation in \<open>GET\<close>.  The result is the new
  view identifier, or \<open>None\<close> when the loop gave up (the 500 response), with the position of
  the entropy tape.
\<close>

function lazyViewId :: "entropy \<Rightarrow> nat \<Rightarrow> nat \<Rightarrow> TodoListDocument list \<Rightarrow> string option \<times> nat" where
  "lazyViewId tape pos attempts coll =
     (let (newViewId, pos') = generateShareId tape pos;
          existing = find (\<lambda>l. shareId l = newViewId \<or> viewId l = Some newViewId) coll
      in case existing of
           None \<Rightarrow> (Some newViewId, pos')
         | Some _ \<Rightarrow>
             if attempts + 1 \<ge> maxAttempts then (None, pos')
             else lazyViewId tape pos' (attempts + 1) coll)"
  by pat_completeness auto
termination
  by (relation "measure (\<lambda>(tape, pos, attempts, coll). maxAttempts - attempts)")
    (auto simp: maxAttempts_def)

declare lazyViewId.simps [simp del]

definition getListResponse :: "TodoListDocument \<Rightarrow> string \<Rightarrow> db \<Rightarrow> response" where
  "getListResponse list ident d =
     json (GetListResponse
             ((serializeTodoList list)\<lparr>permission := Some (detectPermission list ident)\<rparr>)
             (map serializeTodoItem
                (sort_key itemOrder (filter (\<lambda>i. listId i = list_id list) (itemsCollection d)))))
          200"

text \<open>
  \<open>GET /api/lists/[shareId]\<close>.  \<open>!list.viewId\<close> holds for an absent field and for the
  empty string.  The handler reads no cookie.
\<close>

definition GET_list :: "string \<Rightarrow> nat \<Rightarrow> entropy \<Rightarrow> nat \<Rightarrow> db \<Rightarrow> response \<times> db \<times> nat" where
  "GET_list ident now tape pos d =
     (if \<not> isValidShareId ident then (json (ErrorResponse ''Invalid ID format'') 400, d, pos)
      else
        case find (\<lambda>l. shareId l = ident \<or> viewId l = Some ident) (listsCollection d) of
          None \<Rightarrow> (json (ErrorResponse ''List not found'') 404, d, pos)
        | Some list \<Rightarrow>
            if viewId list = None \<or> viewId list = Some [] then
              (case lazyViewId tape pos 0 (listsCollection d) of
                 (None, pos') \<Rightarrow>
                   (json (ErrorResponse ''Failed to generate viewId'') 500, d, pos')
               | (Some newViewId, pos') \<Rightarrow>
                   let d' = d\<lparr>listsCollection :=
                              updateOne (\<lambda>x. list_id x = list_id list)
                                (\<lambda>x. x\<lparr>viewId := Some newViewId, updatedAt := now\<rparr>)
                                (listsCollection d)\<rparr>;
                       list' = list\<lparr>viewId := Some newViewId\<rparr>
                   in (getListResponse list' ident d', d', pos'))
            else (getListResponse list ident d, d, pos))"

fun asString :: "jsvalue \<Rightarrow> string option" where
  "asString (JStr s) = Some s"
| "asString _ = None"

text \<open>\<open>PATCH /api/lists/[shareId]\<close>: the title update.\<close>

definition PATCH_list :: "string \<Rightarrow> jsvalue \<Rightarrow> nat \<Rightarrow> db \<Rightarrow> response \<times> db" where
  "PATCH_list ident titleField now d =
     (if \<not> isValidShareId ident then (json (ErrorResponse ''Invalid shareId format'') 400, d)
      else
        case (if falsy titleField then None else asString titleField) of
          None \<Rightarrow> (json (ErrorResponse ''Title is required and must be a string'') 400, d)
        | Some t \<Rightarrow>
            if length (trim t) = 0 then (json (ErrorResponse ''Title cannot be empty'') 400, d)
            else if length t > 200
            then (json (ErrorResponse ''Title must be 200 characters or less'') 400, d)
            else
              case find (\<lambda>l. shareId l = ident \<or> viewId l = Some ident) (listsCollection d) of
                None \<Rightarrow> (json (ErrorResponse ''List not found'') 404, d)
              | Some list \<Rightarrow>
                  if detectPermission list ident \<noteq> edit
                  then (json (ErrorResponse ''Forbidden: View-only access cannot modify list'') 403, d)
                  else
                    case findOneAndUpdate (\<lambda>x. list_id x = list_id list)
                           (\<lambda>x. x\<lparr>title := trim t, updatedAt := now\<rparr>) (listsCollection d) of
                      (None, lists') \<Rightarrow>
                        (json (ErrorResponse ''List not found'') 404, d\<lparr>listsCollection := lists'\<rparr>)
                    | (Some result, lists') \<Rightarrow>
                        (json (ListResponse (serializeTodoList result)) 200,
                         d\<lparr>listsCollection := lists'\<rparr>))"

text \<open>\<open>DELETE /api/lists/[shareId]\<close>: the list is looked up by \<open>shareId\<close> only.\<close>

definition DELETE_list :: "(string \<Rightarrow> AuthContext option) \<Rightarrow> string option \<Rightarrow> string \<Rightarrow> db \<Rightarrow> response \<times> db" where
  "DELETE_list verifyToken auth_token ident d =
     (case requireAuth verifyToken auth_token of
        None \<Rightarrow> (json (ErrorResponse ''Authentication required'') 401, d)
      | Some auth \<Rightarrow>
          if \<not> isValidShareId ident then (json (ErrorResponse ''Invalid ID format'') 400, d)
          else
            case find (\<lambda>l. shareId l = ident) (listsCollection d) of
              None \<Rightarrow> (json (ErrorResponse ''List not found'') 404, d)
            | Some list \<Rightarrow>
                if userId list = None \<or> userId list \<noteq> Some (auth_userId auth)
                then (json (ErrorResponse ''Forbidden: Only the list owner can delete this list'')
                        403, d)
                else
                  let items' = deleteMany (\<lambda>i. listId i = list_id list) (itemsCollection d);
                      lists' = snd (deleteOne (\<lambda>x. list_id x = list_id list) (listsCollection d))
                  in (json (MessageResponse ''List deleted successfully'') 200,
                      \<lparr>listsCollection = lists', itemsCollection = items'\<rparr>))"

text \<open>
  The \<open>do ... while (true)\<close> loop of \<open>POST /api/lists\<close>.  \<open>continue\<close> in a
  \<open>do ... while (true)\<close> starts the next iteration, so the branch for equal identifiers
  does not reach \<open>attempts++\<close>.  The loop has no bound of its own on that branch: the first
  argument is fuel, and \<open>None\<close> means that the loop has not returned within that many
  iterations.  \<open>Some (None, pos)\<close> is the 500 response, \<open>Some (Some (shareId, viewId), pos)\<close>
  leaves the loop through \<open>break\<close>.
\<close>

fun generateUniqueIds :: "nat \<Rightarrow> entropy \<Rightarrow> nat \<Rightarrow> nat \<Rightarrow> TodoListDocument list
                            \<Rightarrow> ((string \<times> string) option \<times> nat) option" where
  "generateUniqueIds 0 tape pos attempts coll = None"
| "generateUniqueIds (Suc fuel) tape pos attempts coll =
     (let (newShareId, pos1) = generateShareId tape pos;
          (newViewId, pos2) = generateShareId tape pos1
      in if newShareId = newViewId then generateUniqueIds fuel tape pos2 attempts coll
         else
           case find (\<lambda>l. shareId l = newShareId \<or> viewId l = Some newShareId \<or>
                          shareId l = newViewId \<or> viewId l = Some newViewId) coll of
             None \<Rightarrow> Some (Some (newShareId, newViewId), pos2)
           | Some _ \<Rightarrow>
               if attempts + 1 \<ge> maxAttempts then Some (None, pos2)
               else generateUniqueIds fuel tape pos2 (attempts + 1) coll)"

text \<open>
  \<open>POST /api/lists\<close>.  \<open>insertedId\<close> is the \<open>_id\<close> the driver generates.
  \<open>initializeIndexes\<close> touches another collection (\<open>lists\<close>) and swallows its errors.
\<close>

definition POST_lists :: "nat \<Rightarrow> (string \<Rightarrow> AuthContext option) \<Rightarrow> string option \<Rightarrow> jsvalue \<Rightarrow> nat
                            \<Rightarrow> ObjectId \<Rightarrow> entropy \<Rightarrow> nat \<Rightarrow> db \<Rightarrow> (response \<times> db \<times> nat) option" where
  "POST_lists fuel verifyToken auth_token titleField now insertedId tape pos d =
     (case requireAuth verifyToken auth_token of
        None \<Rightarrow> Some (json (ErrorResponse ''Authentication required'') 401, d, pos)
      | Some auth \<Rightarrow>
          case (if falsy titleField then None else asString titleField) of
            None \<Rightarrow> Some (json (ErrorResponse ''Title is required and must be a string'') 400, d, pos)
          | Some t \<Rightarrow>
              if length (trim t) = 0
              then Some (json (ErrorResponse ''Title cannot be empty'') 400, d, pos)
              else if length t > 200
              then Some (json (ErrorResponse ''Title must be 200 characters or less'') 400, d, pos)
              else
                case generateUniqueIds fuel tape pos 0 (listsCollection d) of
                  None \<Rightarrow> None
                | Some (None, pos') \<Rightarrow>
                    Some (json (ErrorResponse ''Failed to generate unique IDs. Please try again.'')
                            500, d, pos')
                | Some (Some (newShareId, newViewId), pos') \<Rightarrow>
                    let newList = \<lparr>list_id = insertedId, userId = Some (auth_userId auth),
                                   shareId = newShareId, viewId = Some newViewId,
                                   title = trim t, createdAt = now, updatedAt = now\<rparr>
                    in Some (json (ListResponse (serializeTodoList newList)) 201,
                             d\<lparr>listsCollection := listsCollection d @ [newList]\<rparr>, pos'))"

section \<open>Item routes (app/api/lists/[shareId]/items/route.ts, .../items/[itemId]/route.ts)\<close>

text \<open>
  Numbers are IEEE 754 doubles.  An order is a double with an integral value, kept as that
  \<open>int\<close>.  \<open>x + 1\<close> on doubles is the exact sum rounded to the nearest double, ties to
  the even significand: integers of at most 53 bits are exact, and beyond them the doubles
  are the multiples of \<open>2 ^ (bits - 53)\<close>.  (Sums beyond the largest double do not occur:
  from \<open>2 ^ 54\<close> on, \<open>x + 1\<close> is \<open>x\<close>.)
\<close>

function bitLength :: "int \<Rightarrow> nat" where
  "bitLength n = (if n \<le> 0 then 0 else Suc (bitLength (n div 2)))"
  by pat_completeness auto
termination
  by (relation "measure nat") auto

declare bitLength.simps [simp del]

definition roundToDouble :: "int \<Rightarrow> int" where
  "roundToDouble x =
     (let a = \<bar>x\<bar>; bits = bitLength a
      in if bits \<le> 53 then x
         else
           let ulp = 2 ^ (bits - 53); q = a div ulp; r = a mod ulp;
               q' = (if 2 * r > ulp \<or> (2 * r = ulp \<and> odd q) then q + 1 else q)
           in sgn x * (q' * ulp))"

text \<open>
  \<open>POST /api/lists/[shareId]/items\<close>.  The next order is \<open>order + 1\<close> for the order of
  the first item of the list under \<open>sort({ order: -1 }).limit(1)\<close>, or 0 when the list has
  none.
\<close>

definition POST_item :: "string \<Rightarrow> jsvalue \<Rightarrow> nat \<Rightarrow> ObjectId \<Rightarrow> db \<Rightarrow> response \<times> db" where
  "POST_item ident textField now insertedId d =
     (if \<not> isValidShareId ident then (json (ErrorResponse ''Invalid shareId format'') 400, d)
      else
        case (if falsy textField then None else asString textField) of
          None \<Rightarrow> (json (ErrorResponse ''Text is required and must be a string'') 400, d)
        | Some t \<Rightarrow>
            if length (trim t) = 0 then (json (ErrorResponse ''Text cannot be empty'') 400, d)
            else if length t > 500
            then (json (ErrorResponse ''Text must be 500 characters or less'') 400, d)
            else
              case find (\<lambda>l. shareId l = ident \<or> viewId l = Some ident) (listsCollection d) of
                None \<Rightarrow> (json (ErrorResponse ''List not found'') 404, d)
              | Some list \<Rightarrow>
                  if detectPermission list ident \<noteq> edit
                  then (json (ErrorResponse ''Forbidden: View-only access cannot create items'')
                          403, d)
                  else
                    let lastItem = take 1 (rev (sort_key itemOrder
                                     (filter (\<lambda>i. listId i = list_id list) (itemsCollection d))));
                        nextOrder = (case lastItem of [] \<Rightarrow> 0
                                     | x # _ \<Rightarrow> roundToDouble (itemOrder x + 1));
                        newItem = \<lparr>item_id = insertedId, listId = list_id list,
                                   itemText = trim t, completed = False, itemOrder = nextOrder,
                                   itemCreatedAt = now, itemUpdatedAt = now\<rparr>
                    in (json (ItemResponse (serializeTodoItem newItem)) 201,
                        \<lparr>listsCollection =
                           updateOne (\<lambda>x. list_id x = list_id list) (\<lambda>x. x\<lparr>updatedAt := now\<rparr>)
                             (listsCollection d),
                         itemsCollection = itemsCollection d @ [newItem]\<rparr>))"

text \<open>
  The three optional fields of the body of \<open>PATCH .../items/[itemId]\<close>, validated in the
  order of the source: the error message, or the assignment to \<open>updateFields\<close>.
\<close>

fun textUpdate :: "jsvalue \<Rightarrow> string + (TodoItemDocument \<Rightarrow> TodoItemDocument)" where
  "textUpdate JUndefined = Inr (\<lambda>i. i)"
| "textUpdate (JStr t) =
     (if length (trim t) = 0 then Inl ''Text cannot be empty''
      else if length t > 500 then Inl ''Text must be 500 characters or less''
      else Inr (\<lambda>i. i\<lparr>itemText := trim t\<rparr>))"
| "textUpdate _ = Inl ''Text must be a string''"

fun completedUpdate :: "jsvalue \<Rightarrow> string + (TodoItemDocument \<Rightarrow> TodoItemDocument)" where
  "completedUpdate JUndefined = Inr (\<lambda>i. i)"
| "completedUpdate (JBool b) = Inr (\<lambda>i. i\<lparr>completed := b\<rparr>)"
| "completedUpdate _ = Inl ''Completed must be a boolean''"

fun orderUpdate :: "jsvalue \<Rightarrow> string + (TodoItemDocument \<Rightarrow> TodoItemDocument)" where
  "orderUpdate JUndefined = Inr (\<lambda>i. i)"
| "orderUpdate (JNum n) =
     (if n < 0 then Inl ''Order must be a non-negative integer''
      else Inr (\<lambda>i. i\<lparr>itemOrder := n\<rparr>))"
| "orderUpdate _ = Inl ''Order must be a non-negative integer''"

text \<open>
  \<open>PATCH /api/lists/[shareId]/items/[itemId]\<close>.  \<open>itemId\<close> is \<open>None\<close> when
  \<open>ObjectId.isValid\<close> rejects the path segment.  \<open>now\<close> is the clock when
  \<open>updateFields\<close> is built, \<open>now2\<close> when the list's \<open>updatedAt\<close> is written.
\<close>

definition PATCH_item :: "string \<Rightarrow> ObjectId option \<Rightarrow> jsvalue \<Rightarrow> jsvalue \<Rightarrow> jsvalue \<Rightarrow> nat \<Rightarrow> nat \<Rightarrow> db
                            \<Rightarrow> response \<times> db" where
  "PATCH_item ident itemId textField completedField orderField now now2 d =
     (if \<not> isValidShareId ident then (json (ErrorResponse ''Invalid shareId format'') 400, d)
      else
        case itemId of
          None \<Rightarrow> (json (ErrorResponse ''Invalid itemId format'') 400, d)
        | Some oid \<Rightarrow>
            if textField = JUndefined \<and> completedField = JUndefined \<and> orderField = JUndefined
            then (json (ErrorResponse
                    ''At least one field (text, completed, or order) must be provided'') 400, d)
            else
              case textUpdate textField of
                Inl e \<Rightarrow> (json (ErrorResponse e) 400, d)
              | Inr setText \<Rightarrow>
              case completedUpdate completedField of
                Inl e \<Rightarrow> (json (ErrorResponse e) 400, d)
              | Inr setCompleted \<Rightarrow>
              case orderUpdate orderField of
                Inl e \<Rightarrow> (json (ErrorResponse e) 400, d)
              | Inr setOrder \<Rightarrow>
              case find (\<lambda>l. shareId l = ident \<or> viewId l = Some ident) (listsCollection d) of
                None \<Rightarrow> (json (ErrorResponse ''List not found'') 404, d)
              | Some list \<Rightarrow>
                  if detectPermission list ident \<noteq> edit
                  then (json (ErrorResponse ''Forbidden: View-only access cannot update items'')
                          403, d)
                  else
                    case findOneAndUpdate (\<lambda>i. item_id i = oid \<and> listId i = list_id list)
                           (\<lambda>i. setOrder (setCompleted (setText (i\<lparr>itemUpdatedAt := now\<rparr>))))
                           (itemsCollection d) of
                      (None, items') \<Rightarrow>
                        (json (ErrorResponse ''Item not found'') 404, d\<lparr>itemsCollection := items'\<rparr>)
                    | (Some result, items') \<Rightarrow>
                        (json (ItemResponse (serializeTodoItem result)) 200,
                         \<lparr>listsCollection =
                            updateOne (\<lambda>x. list_id x = list_id list) (\<lambda>x. x\<lparr>updatedAt := now2\<rparr>)
                              (listsCollection d),
                          itemsCollection = items'\<rparr>))"

text \<open>\<open>DELETE /api/lists/[shareId]/items/[itemId]\<close>.\<close>

definition DELETE_item :: "string \<Rightarrow> ObjectId option \<Rightarrow> nat \<Rightarrow> db \<Rightarrow> response \<times> db" where
  "DELETE_item ident itemId now d =
     (if \<not> isValidShareId ident then (json (ErrorResponse ''Invalid shareId format'') 400, d)
      else
        case itemId of
          None \<Rightarrow> (json (ErrorResponse ''Invalid itemId format'') 400, d)
        | Some oid \<Rightarrow>
            case find (\<lambda>l. shareId l = ident \<or> viewId l = Some ident) (listsCollection d) of
              None \<Rightarrow> (json (ErrorResponse ''List not found'') 404, d)
            | Some list \<Rightarrow>
                if detectPermission list ident \<noteq> edit
                then (json (ErrorResponse ''Forbidden: View-only access cannot delete items'')
                        403, d)
                else
                  let (deletedCount, items') =
                        deleteOne (\<lambda>i. item_id i = oid \<and> listId i = list_id list)
                          (itemsCollection d)
                  in if deletedCount = 0
                     then (json (ErrorResponse ''Item not found'') 404,
                           d\<lparr>itemsCollection := items'\<rparr>)
                     else (json (DeleteItemResponse True) 200,
                           \<lparr>listsCollection =
                              updateOne (\<lambda>x. list_id x = list_id list)
                                (\<lambda>x. x\<lparr>updatedAt := now\<rparr>) (listsCollection d),
                            itemsCollection = items'\<rparr>))"

section \<open>Sign-in (lib/auth.ts, app/api/auth/signin/route.ts)\<close>

text \<open>
  \<open>verifyPassword\<close> is \<open>bcrypt.compare\<close>.  The library rejects the promise when the
  data is not a string (the result \<open>None\<close>); \<open>compare\<close>, its answer on two strings, is a
  parameter.
\<close>

definition verifyPassword :: "(string \<Rightarrow> string \<Rightarrow> bool) \<Rightarrow> jsvalue \<Rightarrow> string \<Rightarrow> bool option" where
  "verifyPassword compare password hash =
     (case asString password of
        None \<Rightarrow> None
      | Some p \<Rightarrow> Some (compare p hash))"

text \<open>
  \<open>POST /api/auth/signin\<close>.  The two fields of the body are any JSON values; the handler
  tests their truthiness only.  \<open>email.toLowerCase()\<close> throws on a value that is not a
  string, and a rejected \<open>verifyPassword\<close> throws: both reach the \<open>catch\<close> and its 500
  response.  \<open>generateToken\<close> (the JWT library) is a parameter.  The state is the throttle
  map; the user collection is only read.
\<close>

definition POST_signin :: "(string \<Rightarrow> string \<Rightarrow> bool) \<Rightarrow> (UserDocument \<Rightarrow> string) \<Rightarrow> nat
                             \<Rightarrow> jsvalue \<Rightarrow> jsvalue \<Rightarrow> UserDocument list \<Rightarrow> attempts
                             \<Rightarrow> response \<times> attempts" where
  "POST_signin compare generateToken now emailField passwordField users signinAttempts =
     (if falsy emailField \<or> falsy passwordField
      then (json (ErrorResponse ''Email and password required'') 400, signinAttempts)
      else
        case asString emailField of
          None \<Rightarrow> (json (ErrorResponse ''Internal server error'') 500, signinAttempts)
        | Some emailValue \<Rightarrow>
            let normalizedEmail = trim (toLowerCase emailValue);
                (allowed, signinAttempts') =
                  checkSigninRateLimit now normalizedEmail signinAttempts
            in if \<not> allowed
               then (json (ErrorResponse ''Too many signin attempts. Please try again later.'')
                       429, signinAttempts')
               else
                 case find (\<lambda>u. user_email u = normalizedEmail) users of
                   None \<Rightarrow> (json (ErrorResponse ''Invalid credentials'') 401, signinAttempts')
                 | Some user \<Rightarrow>
                     (case verifyPassword compare passwordField (passwordHash user) of
                        None \<Rightarrow>
                          (json (ErrorResponse ''Internal server error'') 500, signinAttempts')
                      | Some isValid \<Rightarrow>
                          if \<not> isValid
                          then (json (ErrorResponse ''Invalid credentials'') 401, signinAttempts')
                          else (\<lparr>status = 200, body = UserResponse (serializeUser user),
                                 cookie = Some (generateToken user)\<rparr>, signinAttempts')))"

section \<open>Store invariants\<close>

text \<open>
  The identifiers a list carries: its \<open>shareId\<close>, and its \<open>viewId\<close> when the field is
  present.  The collection is well identified when no identifier occurs twice, in one list
  or in two.
\<close>

definition ids :: "TodoListDocument \<Rightarrow> string list" where
  "ids l = shareId l # (case viewId l of None \<Rightarrow> [] | Some v \<Rightarrow> [v])"

definition ids_unique :: "TodoListDocument list \<Rightarrow> bool" where
  "ids_unique coll = distinct (concat (map ids coll))"

text \<open>The driver's guarantee on \<open>_id\<close>.\<close>

definition oids_unique :: "TodoListDocument list \<Rightarrow> bool" where
  "oids_unique coll = distinct (map list_id coll)"

text \<open>
  Two states of the list collection that differ at most in records with the given \<open>_id\<close>:
  same length, and position by position the record is the same or carries that \<open>_id\<close>.
\<close>

definition touchesOnly :: "ObjectId \<Rightarrow> TodoListDocument list \<Rightarrow> TodoListDocument list \<Rightarrow> bool" where
  "touchesOnly oid before after = list_all2 (\<lambda>b a. list_id b = oid \<or> a = b) before after"

section \<open>Observers and example stores\<close>

text \<open>What a \<open>GET\<close> response reports about the list: the permission and the view identifier.\<close>

definition responsePermission :: "response \<Rightarrow> Permission option" where
  "responsePermission r = (case body r of GetListResponse l _ \<Rightarrow> permission l | _ \<Rightarrow> None)"

definition responseViewId :: "response \<Rightarrow> string option" where
  "responseViewId r = (case body r of GetListResponse l _ \<Rightarrow> api_viewId l | _ \<Rightarrow> None)"

text \<open>
  A store with a list owned by user 7 and one item, a second store that also holds a legacy
  list (no owner, no view identifier), and stand-ins for the token and password services.
\<close>

definition demo_list :: TodoListDocument where
  "demo_list = \<lparr>list_id = 1, userId = Some 7, shareId = ''aaaaaaaaa'', viewId = Some ''bbbbbbbbb'',
     title = ''Groceries'', createdAt = 10, updatedAt = 20\<rparr>"

definition demo_item :: TodoItemDocument where
  "demo_item = \<lparr>item_id = 100, listId = 1, itemText = ''Buy milk'', completed = False,
     itemOrder = 0, itemCreatedAt = 11, itemUpdatedAt = 12\<rparr>"

definition demo_db :: db where
  "demo_db = \<lparr>listsCollection = [demo_list], itemsCollection = [demo_item]\<rparr>"

definition legacy_list :: TodoListDocument where
  "legacy_list = \<lparr>list_id = 2, userId = None, shareId = ''ccccccccc'', viewId = None,
     title = ''Old list'', createdAt = 1, updatedAt = 2\<rparr>"

definition demo_db2 :: db where
  "demo_db2 = \<lparr>listsCollection = [demo_list, legacy_list], itemsCollection = [demo_item]\<rparr>"

definition demo_verifyToken :: "string \<Rightarrow> AuthContext option" where
  "demo_verifyToken token =
     (if token = ''token-u7'' then Some \<lparr>auth_userId = 7, auth_email = ''u7@example.com''\<rparr>
      else if token = ''token-u8'' then Some \<lparr>auth_userId = 8, auth_email = ''u8@example.com''\<rparr>
      else None)"

definition bob :: UserDocument where
  "bob = \<lparr>user_id = 7, user_email = ''bob@example.com'', passwordHash = ''hash-of-secret'',
     userCreatedAt = 1, userUpdatedAt = 1\<rparr>"

definition demo_compare :: "string \<Rightarrow> string \<Rightarrow> bool" where
  "demo_compare password hash = (hash = ''hash-of-'' @ password)"

definition demo_generateToken :: "UserDocument \<Rightarrow> string" where
  "demo_generateToken user = (if user_id user = 7 then ''token-u7'' else ''token-u8'')"

text \<open>An entropy tape that counts: byte \<open>n\<close> is \<open>n mod 256\<close>.\<close>

definition tape_count :: entropy where
  "tape_count = (\<lambda>n. of_nat n)"

text \<open>
  An entropy tape of zero bytes for the first 216 positions (six iterations of the creation
  loop, 36 bytes each), counting from there on.
\<close>

definition tape_late :: entropy where
  "tape_late = (\<lambda>n. if n < 216 then 0 else of_nat n)"

section \<open>Properties\<close>

subsection \<open>Identifiers\<close>

lemma generateShareId_length: "length (fst (generateShareId tape pos)) = 9"
  by (simp add: generateShareId_def randomBytes_def)

lemma generateShareId_pos: "snd (generateShareId tape pos) = pos + 18"
  by (simp add: generateShareId_def randomBytes_def)

lemma chars_length: "length chars = 36"
  by (simp add: chars_def)

lemma chars_nth_mem: "chars ! (n mod length chars) \<in> set chars"
  by (rule nth_mem) (simp add: chars_length)

lemma generateShareId_valid: "isValidShareId (fst (generateShareId tape pos))"
  by (simp add: generateShareId_def randomBytes_def isValidShareId_def list_all_iff
      chars_nth_mem del: upt_rec_numeral)

subsection \<open>Item order\<close>

lemma roundToDouble_exact: "bitLength \<bar>x\<bar> \<le> 53 \<Longrightarrow> roundToDouble x = x"
  by (simp add: roundToDouble_def)

lemma roundToDouble_small: "roundToDouble (41 + 1) = 42"
  by code_simp

lemma roundToDouble_2_53: "roundToDouble (9007199254740992 + 1) = 9007199254740992"
  by code_simp

subsection \<open>Throttle\<close>

lemma signup_refines:
  "0 < now \<Longrightarrow> checkSignupRateLimit now ip m = checkAndConsume ip 3 (60 * 60 * 1000) now m"
  by (auto simp: checkSignupRateLimit_def checkAndConsume_def Let_def split: option.splits)

lemma signin_refines:
  "0 < now \<Longrightarrow> checkSigninRateLimit now email m =
     checkAndConsume (trim (toLowerCase email)) 5 (15 * 60 * 1000) now m"
  by (auto simp: checkSigninRateLimit_def checkAndConsume_def Let_def split: option.splits)

lemma calls_cong:
  "(\<And>t m. t \<in> set ts \<Longrightarrow> f t key m = g t key m) \<Longrightarrow> calls f ts key m = calls g ts key m"
  by (induction ts arbitrary: m) (simp_all add: Let_def)

lemma calls_Cons:
  "check t key m = (a, m1) \<Longrightarrow> calls check ts key m1 = (rs, m2) \<Longrightarrow>
   calls check (t # ts) key m = (a # rs, m2)"
  by simp

lemma replicate_split_Suc:
  "c < limit \<Longrightarrow>
   replicate (min (Suc n) (limit - c)) True @ replicate (Suc n - (limit - c)) False =
   True # (replicate (min n (limit - Suc c)) True @ replicate (n - (limit - Suc c)) False)"
proof -
  assume "c < limit"
  then obtain d where d: "limit - c = Suc d" "limit - Suc c = d"
    by (metis Suc_diff_Suc diff_Suc_eq_diff_pred diff_Suc_1)
  show ?thesis unfolding d by simp
qed

lemma replicate_split_full:
  "limit \<le> c \<Longrightarrow>
   replicate (min (Suc n) (limit - c)) True @ replicate (Suc n - (limit - c)) False =
   False # (replicate (min n (limit - c)) True @ replicate (n - (limit - c)) False)"
  by simp

lemma cac_within:
  assumes "m K = Some e" and "\<forall>t\<in>set ts. t \<le> resetAt e"
  shows "\<exists>m' e'. calls (\<lambda>t _. checkAndConsume K limit W t) ts key m =
           (replicate (min (length ts) (limit - count e)) True @
            replicate (length ts - (limit - count e)) False, m')
         \<and> m' K = Some e' \<and> resetAt e' = resetAt e"
  using assms
proof (induction ts arbitrary: m e)
  case Nil
  then show ?case by simp
next
  case (Cons t ts)
  have live: "\<not> resetAt e < t" using Cons.prems(2) by auto
  have rest: "\<forall>t\<in>set ts. t \<le> resetAt e" using Cons.prems(2) by simp
  show ?case
  proof (cases "limit \<le> count e")
    case True
    have step: "checkAndConsume K limit W t m = (False, m)"
      using True live Cons.prems(1) by (simp add: checkAndConsume_def)
    from Cons.IH[of m e] Cons.prems(1) rest obtain m' e' where
      r: "calls (\<lambda>t _. checkAndConsume K limit W t) ts key m =
           (replicate (min (length ts) (limit - count e)) True @
            replicate (length ts - (limit - count e)) False, m')"
      and s: "m' K = Some e'" "resetAt e' = resetAt e" by blast
    have "calls (\<lambda>t _. checkAndConsume K limit W t) (t # ts) key m =
           (False # (replicate (min (length ts) (limit - count e)) True @
            replicate (length ts - (limit - count e)) False), m')"
      by (rule calls_Cons[OF step r])
    then show ?thesis using s replicate_split_full[OF True, of "length ts"] by auto
  next
    case False
    define e1 where "e1 = \<lparr>count = count e + 1, resetAt = resetAt e\<rparr>"
    define m1 where "m1 = m(K \<mapsto> e1)"
    have e1: "count e1 = Suc (count e)" "resetAt e1 = resetAt e" by (simp_all add: e1_def)
    have step: "checkAndConsume K limit W t m = (True, m1)"
      using False live Cons.prems(1) by (simp add: checkAndConsume_def m1_def e1_def)
    have "m1 K = Some e1" by (simp add: m1_def)
    moreover have "\<forall>t\<in>set ts. t \<le> resetAt e1" using rest e1 by simp
    ultimately obtain m' e' where
      r: "calls (\<lambda>t _. checkAndConsume K limit W t) ts key m1 =
           (replicate (min (length ts) (limit - count e1)) True @
            replicate (length ts - (limit - count e1)) False, m')"
      and s: "m' K = Some e'" "resetAt e' = resetAt e1"
      using Cons.IH by blast
    have "calls (\<lambda>t _. checkAndConsume K limit W t) (t # ts) key m =
           (True # (replicate (min (length ts) (limit - count e1)) True @
            replicate (length ts - (limit - count e1)) False), m')"
      by (rule calls_Cons[OF step r])
    moreover have "count e < limit" using False by simp
    ultimately show ?thesis
      using s e1 replicate_split_Suc[of "count e" limit "length ts"] by auto
  qed
qed

lemma cac_boundary:
  assumes fresh: "case m K of None \<Rightarrow> True | Some e \<Rightarrow> resetAt e < t0"
    and lim: "0 < limit"
    and win: "\<forall>t\<in>set ts. t \<le> t0 + W"
    and later: "t0 + W < t'"
  shows "\<exists>m'. calls (\<lambda>t _. checkAndConsume K limit W t) (t0 # ts) key m =
           (replicate (min (Suc (length ts)) limit) True @
            replicate (Suc (length ts) - limit) False, m')
         \<and> fst (checkAndConsume K limit W t' m')"
proof -
  define e1 where "e1 = \<lparr>count = 1, resetAt = t0 + W\<rparr>"
  define m1 where "m1 = m(K \<mapsto> e1)"
  have e1: "count e1 = Suc 0" "resetAt e1 = t0 + W" by (simp_all add: e1_def)
  have "m1 K = Some e1" by (simp add: m1_def)
  moreover have "\<forall>t\<in>set ts. t \<le> resetAt e1" using win e1 by simp
  ultimately obtain m' e' where
    r: "calls (\<lambda>t _. checkAndConsume K limit W t) ts key m1 =
           (replicate (min (length ts) (limit - count e1)) True @
            replicate (length ts - (limit - count e1)) False, m')"
    and s: "m' K = Some e'" "resetAt e' = resetAt e1"
    using cac_within by blast
  have c: "fst (checkAndConsume K limit W t' m')"
    using s e1 later lim by (simp add: checkAndConsume_def)
  have d: "checkAndConsume K limit W t0 m = (True, m1)"
    using fresh lim by (auto simp: checkAndConsume_def m1_def e1_def split: option.splits)
  have "calls (\<lambda>t _. checkAndConsume K limit W t) (t0 # ts) key m =
           (True # (replicate (min (length ts) (limit - count e1)) True @
            replicate (length ts - (limit - count e1)) False), m')"
    by (rule calls_Cons[OF d r])
  then show ?thesis
    using c e1 replicate_split_Suc[of 0 limit "length ts"] lim by auto
qed

text \<open>
  C5 (attempt throttle, contract and boundary).  At a time after the epoch each call of
  either function is the contract \<open>checkAndConsume\<close> with its policy (signup: key the
  network origin, limit 3, window one hour; signin: key the normalized email, limit 5,
  window fifteen minutes).  Starting from an absent or expired window at \<open>t0\<close>, calls
  with the same key at times up to the window end \<open>t0 + windowMs\<close> return true exactly
  for the first \<open>limit\<close> of them and false for all later ones, and a call after the
  window end returns true again.
\<close>

theorem throttle_contract_and_boundary:
  assumes now: "0 < now" and t0: "0 < t0"
    and fresh_up: "case signupAttempts ip of None \<Rightarrow> True | Some e \<Rightarrow> resetAt e < t0"
    and fresh_in: "case signinAttempts (trim (toLowerCase email)) of
                     None \<Rightarrow> True | Some e \<Rightarrow> resetAt e < t0"
    and win_up: "\<forall>t\<in>set ts_up. 0 < t \<and> t \<le> t0 + 60 * 60 * 1000"
    and win_in: "\<forall>t\<in>set ts_in. 0 < t \<and> t \<le> t0 + 15 * 60 * 1000"
    and later_up: "t0 + 60 * 60 * 1000 < t_up"
    and later_in: "t0 + 15 * 60 * 1000 < t_in"
  shows "checkSignupRateLimit now ip m = checkAndConsume ip 3 (60 * 60 * 1000) now m
       \<and> checkSigninRateLimit now email m =
           checkAndConsume (trim (toLowerCase email)) 5 (15 * 60 * 1000) now m
       \<and> (\<exists>m'. calls checkSignupRateLimit (t0 # ts_up) ip signupAttempts =
                  (replicate (min (Suc (length ts_up)) 3) True @
                   replicate (Suc (length ts_up) - 3) False, m')
               \<and> fst (checkSignupRateLimit t_up ip m'))
       \<and> (\<exists>m'. calls checkSigninRateLimit (t0 # ts_in) email signinAttempts =
                  (replicate (min (Suc (length ts_in)) 5) True @
                   replicate (Suc (length ts_in) - 5) False, m')
               \<and> fst (checkSigninRateLimit t_in email m'))"
proof -
  have up: "calls checkSignupRateLimit (t0 # ts_up) ip signupAttempts =
            calls (\<lambda>t _. checkAndConsume ip 3 (60 * 60 * 1000) t) (t0 # ts_up) ip signupAttempts"
    using t0 win_up by (intro calls_cong signup_refines) auto
  have inn: "calls checkSigninRateLimit (t0 # ts_in) email signinAttempts =
            calls (\<lambda>t _. checkAndConsume (trim (toLowerCase email)) 5 (15 * 60 * 1000) t)
              (t0 # ts_in) email signinAttempts"
    using t0 win_in by (intro calls_cong signin_refines) auto
  have w_up: "\<forall>t\<in>set ts_up. t \<le> t0 + 60 * 60 * 1000" using win_up by simp
  have w_in: "\<forall>t\<in>set ts_in. t \<le> t0 + 15 * 60 * 1000" using win_in by simp
  have l_up: "0 < t_up" using later_up by simp
  have l_in: "0 < t_in" using later_in by simp
  have b_up: "\<exists>m'. calls checkSignupRateLimit (t0 # ts_up) ip signupAttempts =
                  (replicate (min (Suc (length ts_up)) 3) True @
                   replicate (Suc (length ts_up) - 3) False, m')
               \<and> fst (checkSignupRateLimit t_up ip m')"
    unfolding up signup_refines[OF l_up]
    by (rule cac_boundary[where m = signupAttempts and K = ip and limit = 3, OF fresh_up _ w_up later_up]) simp
  have b_in: "\<exists>m'. calls checkSigninRateLimit (t0 # ts_in) email signinAttempts =
                  (replicate (min (Suc (length ts_in)) 5) True @
                   replicate (Suc (length ts_in) - 5) False, m')
               \<and> fst (checkSigninRateLimit t_in email m')"
    unfolding inn signin_refines[OF l_in]
    by (rule cac_boundary[where m = signinAttempts and K = "trim (toLowerCase email)" and limit = 5, OF fresh_in _ w_in later_in]) simp
  show ?thesis
    using signup_refines[OF now] signin_refines[OF now] b_up b_in by blast
qed

theorem throttle_contract_and_boundary_witness:
  "(\<exists>m'. calls checkSignupRateLimit [1000, 2000, 3000, 4000] ''10.0.0.1'' Map.empty =
            ([True, True, True, False], m')
         \<and> fst (checkSignupRateLimit 3601001 ''10.0.0.1'' m'))
 \<and> (\<exists>m'. calls checkSigninRateLimit [1000, 2000, 3000, 4000, 5000, 6000] '' Bob@Example.com''
              Map.empty = ([True, True, True, True, True, False], m')
         \<and> fst (checkSigninRateLimit 901001 '' Bob@Example.com'' m'))"
proof -
  have r3: "replicate (min (Suc (length [2000::nat, 3000, 4000])) 3) True @
            replicate (Suc (length [2000::nat, 3000, 4000]) - 3) False =
            [True, True, True, False]"
    by code_simp
  have r5: "replicate (min (Suc (length [2000::nat, 3000, 4000, 5000, 6000])) 5) True @
            replicate (Suc (length [2000::nat, 3000, 4000, 5000, 6000]) - 5) False =
            [True, True, True, True, True, False]"
    by code_simp
  have "(0::nat) < 1" and "(0::nat) < 1000"
    and "case (Map.empty :: attempts) ''10.0.0.1'' of None \<Rightarrow> True | Some e \<Rightarrow> resetAt e < 1000"
    and "case (Map.empty :: attempts) (trim (toLowerCase '' Bob@Example.com'')) of
           None \<Rightarrow> True | Some e \<Rightarrow> resetAt e < 1000"
    and "\<forall>t\<in>set [2000::nat, 3000, 4000]. 0 < t \<and> t \<le> 1000 + 60 * 60 * 1000"
    and "\<forall>t\<in>set [2000::nat, 3000, 4000, 5000, 6000]. 0 < t \<and> t \<le> 1000 + 15 * 60 * 1000"
    and "(1000::nat) + 60 * 60 * 1000 < 3601001"
    and "(1000::nat) + 15 * 60 * 1000 < 901001"
    by simp_all
  from throttle_contract_and_boundary[OF this, where m = Map.empty]
  show ?thesis unfolding r3 r5 by blast
qed

subsection \<open>Store operations\<close>

lemma find_SomeD: "find P xs = Some x \<Longrightarrow> x \<in> set xs \<and> P x"
  by (induction xs) (auto split: if_splits)

lemma updateOne_no_match: "find p ds = None \<Longrightarrow> updateOne p f ds = ds"
  by (induction ds) (auto split: if_splits)

lemma deleteOne_no_match: "find p ds = None \<Longrightarrow> deleteOne p ds = (0, ds)"
  by (induction ds) (auto split: if_splits)

lemma deleteOne_keeps: "l \<in> set ds \<Longrightarrow> \<not> p l \<Longrightarrow> l \<in> set (snd (deleteOne p ds))"
  by (induction ds) (auto split: prod.splits)

lemma oids_unique_eq:
  "oids_unique coll \<Longrightarrow> a \<in> set coll \<Longrightarrow> b \<in> set coll \<Longrightarrow> list_id a = list_id b \<Longrightarrow> a = b"
  unfolding oids_unique_def by (meson distinct_map inj_onD)

lemma ids_unique_Cons:
  "ids_unique (x # xs) \<longleftrightarrow>
     distinct (ids x) \<and> ids_unique xs \<and> set (ids x) \<inter> (\<Union>l\<in>set xs. set (ids l)) = {}"
  by (auto simp: ids_unique_def)

lemma ids_unique_same:
  "ids_unique coll \<Longrightarrow> a \<in> set coll \<Longrightarrow> b \<in> set coll \<Longrightarrow> i \<in> set (ids a) \<Longrightarrow> i \<in> set (ids b)
   \<Longrightarrow> a = b"
  by (induction coll) (auto simp: ids_unique_Cons)

lemma ids_unique_self: "ids_unique coll \<Longrightarrow> a \<in> set coll \<Longrightarrow> viewId a \<noteq> Some (shareId a)"
  by (induction coll) (auto simp: ids_unique_Cons ids_def)

lemma mem_ids: "i \<in> set (ids l) \<longleftrightarrow> shareId l = i \<or> viewId l = Some i"
  by (auto simp: ids_def split: option.splits)

lemma find_by_link_unique:
  assumes "ids_unique coll" "l \<in> set coll" "shareId l = i \<or> viewId l = Some i"
  shows "find (\<lambda>x. shareId x = i \<or> viewId x = Some i) coll = Some l"
proof (cases "find (\<lambda>x. shareId x = i \<or> viewId x = Some i) coll")
  case None
  then show ?thesis using assms by (auto simp: find_None_iff)
next
  case (Some l')
  then have "l' \<in> set coll" "i \<in> set (ids l')" using find_SomeD[OF Some] by (auto simp: mem_ids)
  with assms have "l' = l" using ids_unique_same[of coll l' l i] by (simp add: mem_ids)
  with Some show ?thesis by simp
qed

lemma getListResponse_status: "status (getListResponse l i d) = 200"
  by (simp add: getListResponse_def json_def)

lemma getListResponse_permission:
  "responsePermission (getListResponse l i d) = Some (detectPermission l i)"
  by (simp add: getListResponse_def json_def responsePermission_def serializeTodoList_def)

lemma getListResponse_viewId:
  "responseViewId (getListResponse l i d) = viewId l"
  by (simp add: getListResponse_def json_def responseViewId_def serializeTodoList_def)

lemma valid_nonempty: "isValidShareId i \<Longrightarrow> i \<noteq> []"
  by (auto simp: isValidShareId_def)

lemma valid_a: "isValidShareId ''aaaaaaaaa''"
  by (simp add: isValidShareId_def chars_def)

lemma valid_c: "isValidShareId ''ccccccccc''"
  by (simp add: isValidShareId_def chars_def)

lemma norm_bob: "trim (toLowerCase ''Bob@Example.com'') = ''bob@example.com''"
  by code_simp

lemma norm_bob_lower: "trim (toLowerCase ''bob@example.com'') = ''bob@example.com''"
  by code_simp

lemma norm_eve: "trim (toLowerCase ''eve@example.com'') = ''eve@example.com''"
  by code_simp

subsection \<open>Item mutations\<close>

text \<open>
  C10 (atomicity of failed item mutations).  An item update or item delete that passes the
  format checks, the body validation and the permission check, and finds no item with the
  given id in the addressed list, answers 404 \<open>Item not found\<close> and returns the store as
  it was: no item is changed or removed and the list record, with its \<open>updatedAt\<close>, is
  untouched.
\<close>

theorem failed_item_mutation_atomic:
  assumes valid: "isValidShareId ident"
    and found: "find (\<lambda>l. shareId l = ident \<or> viewId l = Some ident) (listsCollection d) = Some list"
    and perm: "detectPermission list ident = edit"
    and missing: "find (\<lambda>i. item_id i = oid \<and> listId i = list_id list) (itemsCollection d) = None"
    and given: "textField \<noteq> JUndefined \<or> completedField \<noteq> JUndefined \<or> orderField \<noteq> JUndefined"
    and fields: "textUpdate textField = Inr setText" "completedUpdate completedField = Inr setCompleted"
      "orderUpdate orderField = Inr setOrder"
  shows "PATCH_item ident (Some oid) textField completedField orderField now now2 d =
           (json (ErrorResponse ''Item not found'') 404, d)
       \<and> DELETE_item ident (Some oid) now d = (json (ErrorResponse ''Item not found'') 404, d)"
proof
  have "findOneAndUpdate (\<lambda>i. item_id i = oid \<and> listId i = list_id list)
          (\<lambda>i. setOrder (setCompleted (setText (i\<lparr>itemUpdatedAt := now\<rparr>)))) (itemsCollection d) =
        (None, itemsCollection d)"
    using missing by (simp add: findOneAndUpdate_def updateOne_no_match)
  then show "PATCH_item ident (Some oid) textField completedField orderField now now2 d =
           (json (ErrorResponse ''Item not found'') 404, d)"
    using valid found perm given fields by (auto simp: PATCH_item_def)
next
  show "DELETE_item ident (Some oid) now d = (json (ErrorResponse ''Item not found'') 404, d)"
    using valid found perm deleteOne_no_match[OF missing] by (simp add: DELETE_item_def)
qed

theorem failed_item_mutation_atomic_witness:
  "PATCH_item ''aaaaaaaaa'' (Some 101) JUndefined (JBool True) JUndefined 30 31 demo_db =
     (json (ErrorResponse ''Item not found'') 404, demo_db)
   \<and> DELETE_item ''aaaaaaaaa'' (Some 101) 30 demo_db =
     (json (ErrorResponse ''Item not found'') 404, demo_db)"
  by (rule failed_item_mutation_atomic[where list = demo_list])
    (simp_all add: valid_a demo_db_def demo_list_def demo_item_def detectPermission_def)

subsection \<open>Link grant\<close>

text \<open>
  C4 (link-type determinism).  \<open>detectPermission\<close> answers \<open>edit\<close> exactly when the
  identifier is the record's \<open>shareId\<close> and \<open>view\<close> otherwise.  In a collection with
  unique identifiers, reading a list by its \<open>shareId\<close> reports \<open>edit\<close> (unless the lazy
  generation for a legacy record gives up with 500), and reading it by its \<open>viewId\<close>
  reports exactly \<open>view\<close>, whoever asks: the handler reads no identity.
\<close>

theorem link_type_determinism:
  assumes uniq: "ids_unique (listsCollection d)" and mem: "l \<in> set (listsCollection d)"
  shows "(detectPermission list ident = edit \<longleftrightarrow> ident = shareId list)
       \<and> (detectPermission list ident = view \<longleftrightarrow> ident \<noteq> shareId list)
       \<and> (isValidShareId (shareId l) \<longrightarrow>
            (let r = fst (GET_list (shareId l) now tape pos d)
             in (status r = 200 \<and> responsePermission r = Some edit) \<or>
                (status r = 500 \<and> (viewId l = None \<or> viewId l = Some []))))
       \<and> (viewId l = Some v \<and> isValidShareId v \<longrightarrow>
            (let r = fst (GET_list v now tape pos d)
             in status r = 200 \<and> responsePermission r = Some view))"
proof (intro conjI impI)
  show "detectPermission list ident = edit \<longleftrightarrow> ident = shareId list"
    by (auto simp: detectPermission_def)
  show "detectPermission list ident = view \<longleftrightarrow> ident \<noteq> shareId list"
    by (auto simp: detectPermission_def)
next
  assume valid: "isValidShareId (shareId l)"
  have f: "find (\<lambda>x. shareId x = shareId l \<or> viewId x = Some (shareId l)) (listsCollection d) = Some l"
    using find_by_link_unique[OF uniq mem] by simp
  show "let r = fst (GET_list (shareId l) now tape pos d)
        in (status r = 200 \<and> responsePermission r = Some edit) \<or>
           (status r = 500 \<and> (viewId l = None \<or> viewId l = Some []))"
    using valid f
    by (auto simp: GET_list_def Let_def getListResponse_status getListResponse_permission
        detectPermission_def json_def split: prod.splits option.splits)
next
  assume a: "viewId l = Some v \<and> isValidShareId v"
  have f: "find (\<lambda>x. shareId x = v \<or> viewId x = Some v) (listsCollection d) = Some l"
    using find_by_link_unique[OF uniq mem] a by simp
  have ne: "shareId l \<noteq> v" using ids_unique_self[OF uniq mem] a by auto
  show "let r = fst (GET_list v now tape pos d)
        in status r = 200 \<and> responsePermission r = Some view"
    using a f ne valid_nonempty[of v]
    by (simp add: GET_list_def Let_def getListResponse_status getListResponse_permission
        detectPermission_def)
qed

theorem link_type_determinism_witness:
  "(let r = fst (GET_list ''aaaaaaaaa'' 30 (\<lambda>_. 0) 0 demo_db)
    in status r = 200 \<and> responsePermission r = Some edit)
 \<and> (let r = fst (GET_list ''bbbbbbbbb'' 30 (\<lambda>_. 0) 0 demo_db)
    in status r = 200 \<and> responsePermission r = Some view)"
proof -
  have u: "ids_unique (listsCollection demo_db)"
    by (simp add: ids_unique_def ids_def demo_db_def demo_list_def)
  have m: "demo_list \<in> set (listsCollection demo_db)" by (simp add: demo_db_def)
  have va: "isValidShareId (shareId demo_list)" by (simp add: demo_list_def valid_a)
  have vb: "viewId demo_list = Some ''bbbbbbbbb'' \<and> isValidShareId ''bbbbbbbbb''"
    by (simp add: demo_list_def isValidShareId_def chars_def)
  have sv: "viewId demo_list \<noteq> None \<and> viewId demo_list \<noteq> Some []"
    by (simp add: demo_list_def)
  from link_type_determinism[OF u m, of undefined undefined 30 "\<lambda>_. 0" 0 "''bbbbbbbbb''"] va vb sv
  show ?thesis by (simp add: demo_list_def)
qed

subsection \<open>List deletion\<close>

lemma DELETE_list_keeps_legacy:
  assumes uniq: "oids_unique (listsCollection d)" and mem: "l \<in> set (listsCollection d)"
    and legacy: "userId l = None"
  shows "l \<in> set (listsCollection (snd (DELETE_list verifyToken auth_token ident d)))"
proof -
  have "l \<in> set (snd (deleteOne (\<lambda>x. list_id x = list_id list) (listsCollection d)))"
    if f: "find (\<lambda>l. shareId l = ident) (listsCollection d) = Some list"
      and o: "userId list \<noteq> None" for list
  proof -
    have "list \<in> set (listsCollection d)" using find_SomeD[OF f] by simp
    then have "list_id l \<noteq> list_id list"
      using oids_unique_eq[OF uniq mem, of list] legacy o by auto
    then show ?thesis using deleteOne_keeps[OF mem] by simp
  qed
  then show ?thesis using mem
    by (auto simp: DELETE_list_def Let_def split: option.splits)
qed

text \<open>
  C2 (deletion requires the owner).  Without a verified identity the deletion is answered
  401 and nothing is deleted.  With a verified identity that is not the list's \<open>userId\<close>
  (the list has another owner, or none) the edit link is answered 403 and nothing is
  deleted.  A list without owner is never removed, by any deletion request, and a response
  200 implies a verified identity equal to the \<open>userId\<close> of the list found.
\<close>

theorem deleteList_requires_owner:
  "(requireAuth verifyToken auth_token = None \<longrightarrow>
      DELETE_list verifyToken auth_token ident d =
        (json (ErrorResponse ''Authentication required'') 401, d))
 \<and> (requireAuth verifyToken auth_token = Some auth \<and> isValidShareId ident \<and>
    find (\<lambda>l. shareId l = ident) (listsCollection d) = Some list \<and>
    userId list \<noteq> Some (auth_userId auth) \<longrightarrow>
      DELETE_list verifyToken auth_token ident d =
        (json (ErrorResponse ''Forbidden: Only the list owner can delete this list'') 403, d))
 \<and> (isValidShareId ident \<and>
    find (\<lambda>l. shareId l = ident) (listsCollection d) = Some list \<and> userId list = None \<longrightarrow>
      (status (fst (DELETE_list verifyToken auth_token ident d)) = 401 \<or>
       status (fst (DELETE_list verifyToken auth_token ident d)) = 403) \<and>
      snd (DELETE_list verifyToken auth_token ident d) = d)
 \<and> (oids_unique (listsCollection d) \<and> l \<in> set (listsCollection d) \<and> userId l = None \<longrightarrow>
      l \<in> set (listsCollection (snd (DELETE_list verifyToken auth_token ident d))))
 \<and> (status (fst (DELETE_list verifyToken auth_token ident d)) = 200 \<longrightarrow>
      (\<exists>a list. requireAuth verifyToken auth_token = Some a \<and>
         find (\<lambda>l. shareId l = ident) (listsCollection d) = Some list \<and>
         userId list = Some (auth_userId a)))"
proof -
  have c1: "requireAuth verifyToken auth_token = None \<longrightarrow>
      DELETE_list verifyToken auth_token ident d =
        (json (ErrorResponse ''Authentication required'') 401, d)"
    by (simp add: DELETE_list_def)
  have c2: "requireAuth verifyToken auth_token = Some auth \<and> isValidShareId ident \<and>
    find (\<lambda>l. shareId l = ident) (listsCollection d) = Some list \<and>
    userId list \<noteq> Some (auth_userId auth) \<longrightarrow>
      DELETE_list verifyToken auth_token ident d =
        (json (ErrorResponse ''Forbidden: Only the list owner can delete this list'') 403, d)"
    by (simp add: DELETE_list_def)
  have c3: "isValidShareId ident \<and>
    find (\<lambda>l. shareId l = ident) (listsCollection d) = Some list \<and> userId list = None \<longrightarrow>
      (status (fst (DELETE_list verifyToken auth_token ident d)) = 401 \<or>
       status (fst (DELETE_list verifyToken auth_token ident d)) = 403) \<and>
      snd (DELETE_list verifyToken auth_token ident d) = d"
    by (auto simp: DELETE_list_def json_def split: option.splits)
  have c4: "oids_unique (listsCollection d) \<and> l \<in> set (listsCollection d) \<and> userId l = None \<longrightarrow>
      l \<in> set (listsCollection (snd (DELETE_list verifyToken auth_token ident d)))"
    using DELETE_list_keeps_legacy by blast
  have c5: "status (fst (DELETE_list verifyToken auth_token ident d)) = 200 \<longrightarrow>
      (\<exists>a list. requireAuth verifyToken auth_token = Some a \<and>
         find (\<lambda>l. shareId l = ident) (listsCollection d) = Some list \<and>
         userId list = Some (auth_userId a))"
    by (auto simp: DELETE_list_def json_def Let_def split: option.splits if_splits)
  show ?thesis using c1 c2 c3 c4 c5 by blast
qed

theorem deleteList_requires_owner_witness:
  "DELETE_list demo_verifyToken None ''aaaaaaaaa'' demo_db2 =
     (json (ErrorResponse ''Authentication required'') 401, demo_db2)
 \<and> DELETE_list demo_verifyToken (Some ''token-u8'') ''aaaaaaaaa'' demo_db2 =
     (json (ErrorResponse ''Forbidden: Only the list owner can delete this list'') 403, demo_db2)
 \<and> DELETE_list demo_verifyToken (Some ''token-u8'') ''ccccccccc'' demo_db2 =
     (json (ErrorResponse ''Forbidden: Only the list owner can delete this list'') 403, demo_db2)
 \<and> legacy_list \<in> set (listsCollection
      (snd (DELETE_list demo_verifyToken (Some ''token-u7'') ''aaaaaaaaa'' demo_db2)))"
proof -
  have n: "requireAuth demo_verifyToken None = None"
    by (simp add: requireAuth_def getAuthContext_def)
  have a8: "requireAuth demo_verifyToken (Some ''token-u8'') =
              Some \<lparr>auth_userId = 8, auth_email = ''u8@example.com''\<rparr>"
    by (simp add: requireAuth_def getAuthContext_def demo_verifyToken_def)
  have fa: "find (\<lambda>l. shareId l = ''aaaaaaaaa'') (listsCollection demo_db2) = Some demo_list"
    by (simp add: demo_db2_def demo_list_def)
  have fc: "find (\<lambda>l. shareId l = ''ccccccccc'') (listsCollection demo_db2) = Some legacy_list"
    by (simp add: demo_db2_def demo_list_def legacy_list_def)
  have o: "oids_unique (listsCollection demo_db2)" "legacy_list \<in> set (listsCollection demo_db2)"
    "userId legacy_list = None" "userId demo_list \<noteq> Some 8"
    by (simp_all add: oids_unique_def demo_db2_def demo_list_def legacy_list_def)
  show ?thesis
    using deleteList_requires_owner[of demo_verifyToken None "''aaaaaaaaa''" demo_db2]
      deleteList_requires_owner[of demo_verifyToken "Some ''token-u8''" "''aaaaaaaaa''" demo_db2
        "\<lparr>auth_userId = 8, auth_email = ''u8@example.com''\<rparr>" demo_list]
      deleteList_requires_owner[of demo_verifyToken "Some ''token-u8''" "''ccccccccc''" demo_db2
        "\<lparr>auth_userId = 8, auth_email = ''u8@example.com''\<rparr>" legacy_list]
      deleteList_requires_owner[of demo_verifyToken "Some ''token-u7''" "''aaaaaaaaa''" demo_db2
        _ _ legacy_list]
      n a8 fa fc o valid_a valid_c
    by simp
qed

subsection \<open>Sign-in\<close>

text \<open>
  With string fields the two failures are one response: a request whose email matches no
  account and a request with the email of an account and a wrong password, both non-empty
  and both admitted by the throttle, get status 401, body \<open>Invalid credentials\<close>, no
  cookie.
\<close>

lemma signin_string_fields_same_response:
  assumes absent: "find (\<lambda>u. user_email u = trim (toLowerCase e1)) users = None"
    and present: "find (\<lambda>u. user_email u = trim (toLowerCase e2)) users' = Some user"
    and wrong: "\<not> compare p2 (passwordHash user)"
    and fields: "e1 \<noteq> []" "p1 \<noteq> []" "e2 \<noteq> []" "p2 \<noteq> []"
    and admitted: "fst (checkSigninRateLimit now1 (trim (toLowerCase e1)) m1)"
      "fst (checkSigninRateLimit now2 (trim (toLowerCase e2)) m2)"
  shows "fst (POST_signin compare generateToken now1 (JStr e1) (JStr p1) users m1) =
           json (ErrorResponse ''Invalid credentials'') 401
       \<and> fst (POST_signin compare generateToken now2 (JStr e2) (JStr p2) users' m2) =
           json (ErrorResponse ''Invalid credentials'') 401"
  using assms
  by (auto simp: POST_signin_def verifyPassword_def Let_def split: prod.splits)

text \<open>
  C6 (anti-enumeration on sign-in), evaluated where it fails.  The password \<open>1\<close> (a JSON
  number) is truthy and not a string.  With it, the email of no account is answered 401
  \<open>Invalid credentials\<close>, and the email of an account is answered 500
  \<open>Internal server error\<close>, since \<open>verifyPassword\<close> rejects: the two responses differ
  in status and body, and tell whether the account exists.
\<close>

theorem signin_non_string_password_reveals_account:
  "fst (POST_signin demo_compare demo_generateToken 1000 (JStr ''eve@example.com'') (JNum 1)
          [bob] Map.empty) = json (ErrorResponse ''Invalid credentials'') 401
 \<and> fst (POST_signin demo_compare demo_generateToken 1000 (JStr ''bob@example.com'') (JNum 1)
          [bob] Map.empty) = json (ErrorResponse ''Internal server error'') 500
 \<and> find (\<lambda>u. user_email u = ''eve@example.com'') [bob] = None
 \<and> find (\<lambda>u. user_email u = ''bob@example.com'') [bob] = Some bob"
  by (simp add: POST_signin_def verifyPassword_def checkSigninRateLimit_def norm_bob_lower
      norm_eve bob_def)

subsection \<open>Identifier uniqueness\<close>

lemma ids_set: "(\<Union>l\<in>set coll. set (ids l)) = set (concat (map ids coll))"
  by simp

lemma fresh_not_in_ids:
  "find (\<lambda>l. shareId l = v \<or> viewId l = Some v) coll = None \<Longrightarrow> v \<notin> set (concat (map ids coll))"
  by (auto simp: find_None_iff mem_ids)

lemma lazyViewId_fresh:
  "lazyViewId tape pos attempts coll = (Some v, pos') \<Longrightarrow>
   find (\<lambda>l. shareId l = v \<or> viewId l = Some v) coll = None \<and> isValidShareId v"
proof (induction tape pos attempts coll rule: lazyViewId.induct)
  case (1 tape pos attempts coll)
  obtain w p where g: "generateShareId tape pos = (w, p)" by (cases "generateShareId tape pos")
  have wv: "isValidShareId w" using generateShareId_valid[of tape pos] g by simp
  show ?case
  proof (cases "find (\<lambda>l. shareId l = w \<or> viewId l = Some w) coll")
    case None
    then show ?thesis using "1.prems" g wv by (simp add: lazyViewId.simps[of tape pos])
  next
    case (Some a)
    then show ?thesis using "1.prems" g "1.IH"[OF refl g[symmetric] refl Some]
      by (simp add: lazyViewId.simps[of tape pos] split: if_splits)
  qed
qed

lemma ids_updateOne_subset:
  "set (concat (map ids (updateOne p (\<lambda>x. x\<lparr>viewId := Some v, updatedAt := now\<rparr>) coll)))
     \<subseteq> insert v (set (concat (map ids coll)))"
  by (induction coll) (auto simp: ids_def split: option.splits)

lemma ids_unique_backfill:
  "ids_unique coll \<Longrightarrow> v \<notin> set (concat (map ids coll)) \<Longrightarrow>
   ids_unique (updateOne p (\<lambda>x. x\<lparr>viewId := Some v, updatedAt := now\<rparr>) coll)"
proof (induction coll)
  case Nil
  then show ?case by simp
next
  case (Cons d ds)
  have sub: "set (concat (map ids (updateOne p (\<lambda>x. x\<lparr>viewId := Some v, updatedAt := now\<rparr>) ds)))
     \<subseteq> insert v (set (concat (map ids ds)))" by (rule ids_updateOne_subset)
  show ?case
  proof (cases "p d")
    case True
    then show ?thesis using Cons.prems
      by (auto simp: ids_unique_Cons ids_def split: option.splits)
  next
    case False
    have "ids_unique (updateOne p (\<lambda>x. x\<lparr>viewId := Some v, updatedAt := now\<rparr>) ds)"
      using Cons by (simp add: ids_unique_Cons)
    moreover have "set (ids d) \<inter> set (concat (map ids (updateOne p (\<lambda>x. x\<lparr>viewId := Some v, updatedAt := now\<rparr>) ds))) = {}"
      using sub Cons.prems by (auto simp: ids_unique_Cons)
    ultimately show ?thesis using False Cons.prems by (simp add: ids_unique_Cons)
  qed
qed

lemma generateUniqueIds_fresh:
  "generateUniqueIds fuel tape pos attempts coll = Some (Some (s, v), pos') \<Longrightarrow>
   s \<noteq> v \<and> s \<notin> set (concat (map ids coll)) \<and> v \<notin> set (concat (map ids coll))"
proof (induction fuel arbitrary: pos attempts)
  case 0
  then show ?case by simp
next
  case (Suc fuel)
  obtain s1 p1 where g1: "generateShareId tape pos = (s1, p1)" by (cases "generateShareId tape pos")
  obtain v1 p2 where g2: "generateShareId tape p1 = (v1, p2)" by (cases "generateShareId tape p1")
  show ?case
  proof (cases "s1 = v1")
    case True
    then show ?thesis using Suc.prems g1 g2 Suc.IH by simp
  next
    case False
    show ?thesis
    proof (cases "find (\<lambda>l. shareId l = s1 \<or> viewId l = Some s1 \<or> shareId l = v1 \<or> viewId l = Some v1) coll")
      case None
      then have "s = s1" "v = v1" using Suc.prems g1 g2 False by simp_all
      moreover have "s1 \<notin> set (concat (map ids coll))" "v1 \<notin> set (concat (map ids coll))"
        using None by (auto simp: find_None_iff mem_ids)
      ultimately show ?thesis using False by simp
    next
      case (Some a)
      then show ?thesis using Suc.prems g1 g2 False Suc.IH by (simp split: if_splits)
    qed
  qed
qed

lemma ids_unique_insert:
  "ids_unique coll \<Longrightarrow> s \<noteq> v \<Longrightarrow> s \<notin> set (concat (map ids coll)) \<Longrightarrow>
   v \<notin> set (concat (map ids coll)) \<Longrightarrow> shareId new = s \<Longrightarrow> viewId new = Some v \<Longrightarrow>
   ids_unique (coll @ [new])"
  by (auto simp: ids_unique_def ids_def)

lemma GET_list_ids_unique:
  assumes "ids_unique (listsCollection d)"
  shows "ids_unique (listsCollection (fst (snd (GET_list ident now tape pos d))))"
proof -
  have "ids_unique (updateOne p (\<lambda>x. x\<lparr>viewId := Some v, updatedAt := now\<rparr>) (listsCollection d))"
    if "lazyViewId tape pos 0 (listsCollection d) = (Some v, pos')" for v pos' p
    using lazyViewId_fresh[OF that] assms by (intro ids_unique_backfill fresh_not_in_ids) simp_all
  then show ?thesis using assms
    by (auto simp: GET_list_def Let_def split: option.splits prod.splits)
qed

lemma POST_lists_ids_unique:
  assumes "ids_unique (listsCollection d)"
    and "POST_lists fuel verifyToken auth_token titleField now insertedId tape pos d = Some (r, d', pos')"
  shows "ids_unique (listsCollection d')"
  using assms
  by (auto simp: POST_lists_def Let_def split: option.splits if_splits prod.splits
      dest!: generateUniqueIds_fresh intro!: ids_unique_insert)

lemma ids_unique_nth:
  "ids_unique coll \<Longrightarrow> i < length coll \<Longrightarrow> j < length coll \<Longrightarrow> i \<noteq> j \<Longrightarrow>
   set (ids (coll ! i)) \<inter> set (ids (coll ! j)) = {}"
proof (induction coll arbitrary: i j)
  case Nil
  then show ?case by simp
next
  case (Cons x xs)
  have tl: "ids_unique xs" and dj: "set (ids x) \<inter> (\<Union>l\<in>set xs. set (ids l)) = {}"
    using Cons.prems(1) by (simp_all add: ids_unique_Cons)
  show ?case
  proof (cases i)
    case 0
    then obtain j' where j: "j = Suc j'" "j' < length xs" using Cons.prems by (cases j) auto
    then have "xs ! j' \<in> set xs" by simp
    then have "set (ids (xs ! j')) \<subseteq> (\<Union>l\<in>set xs. set (ids l))" by blast
    then show ?thesis using 0 j dj by auto
  next
    case (Suc i')
    show ?thesis
    proof (cases j)
      case 0
      have "xs ! i' \<in> set xs" using Suc Cons.prems by simp
      then have "set (ids (xs ! i')) \<subseteq> (\<Union>l\<in>set xs. set (ids l))" by blast
      then show ?thesis using 0 Suc dj by auto
    next
      case (Suc j')
      then show ?thesis using \<open>i = Suc i'\<close> Cons.prems Cons.IH[OF tl, of i' j'] by simp
    qed
  qed
qed

text \<open>
  C3 (identifier uniqueness is an invariant).  The invariant \<open>ids_unique\<close> says that no
  identifier value occurs twice in the collection, over \<open>shareId\<close> and \<open>viewId\<close>
  together: a list's \<open>viewId\<close> differs from its \<open>shareId\<close>, and two lists share no
  identifier.  Both operations that write identifiers preserve it: the read with its lazy
  generation (the new \<open>viewId\<close> is checked against every \<open>shareId\<close> and \<open>viewId\<close> of
  the collection, the target's own \<open>shareId\<close> included), and list creation (the two new
  identifiers differ and neither occurs in the collection).
\<close>

theorem identifier_uniqueness_preserved:
  assumes inv: "ids_unique (listsCollection d)"
  shows "ids_unique (listsCollection (fst (snd (GET_list ident now tape pos d))))
       \<and> (POST_lists fuel verifyToken auth_token titleField now insertedId tape pos d
            = Some (r, d', pos') \<longrightarrow> ids_unique (listsCollection d'))
       \<and> (\<forall>l\<in>set (listsCollection d). viewId l \<noteq> Some (shareId l))
       \<and> (\<forall>i<length (listsCollection d). \<forall>j<length (listsCollection d). i \<noteq> j \<longrightarrow>
            set (ids (listsCollection d ! i)) \<inter> set (ids (listsCollection d ! j)) = {})"
proof -
  have a: "ids_unique (listsCollection (fst (snd (GET_list ident now tape pos d))))"
    by (rule GET_list_ids_unique[OF inv])
  have b: "POST_lists fuel verifyToken auth_token titleField now insertedId tape pos d
            = Some (r, d', pos') \<longrightarrow> ids_unique (listsCollection d')"
    using POST_lists_ids_unique[OF inv] by blast
  have c: "\<forall>l\<in>set (listsCollection d). viewId l \<noteq> Some (shareId l)"
    using ids_unique_self[OF inv] by blast
  have e: "\<forall>i<length (listsCollection d). \<forall>j<length (listsCollection d). i \<noteq> j \<longrightarrow>
            set (ids (listsCollection d ! i)) \<inter> set (ids (listsCollection d ! j)) = {}"
    using ids_unique_nth[OF inv] by blast
  show ?thesis using a b c e by blast
qed

lemma demo_db2_ids_unique: "ids_unique (listsCollection demo_db2)"
  by (simp add: ids_unique_def ids_def demo_db2_def demo_list_def legacy_list_def)

lemma demo_GET_legacy:
  "GET_list ''ccccccccc'' 30 tape_count 0 demo_db2 =
     (json (GetListResponse
              \<lparr>api_id = 2, api_shareId = ''ccccccccc'', api_viewId = Some ''abcdefghi'',
               api_title = ''Old list'', api_createdAt = 1, api_updatedAt = 2,
               permission = Some edit\<rparr> []) 200,
      \<lparr>listsCollection = [demo_list, legacy_list\<lparr>viewId := Some ''abcdefghi'', updatedAt := 30\<rparr>],
       itemsCollection = [demo_item]\<rparr>, 18)"
  by code_simp

lemma demo_POST_lists:
  "POST_lists 1 demo_verifyToken (Some ''token-u7'') (JStr ''  Chores '') 40 3 tape_count 0 demo_db2 =
     Some (json (ListResponse
              \<lparr>api_id = 3, api_shareId = ''abcdefghi'', api_viewId = Some ''stuvwxyz0'',
               api_title = ''Chores'', api_createdAt = 40, api_updatedAt = 40,
               permission = None\<rparr>) 201,
       \<lparr>listsCollection = [demo_list, legacy_list,
          \<lparr>list_id = 3, userId = Some 7, shareId = ''abcdefghi'', viewId = Some ''stuvwxyz0'',
           title = ''Chores'', createdAt = 40, updatedAt = 40\<rparr>],
        itemsCollection = [demo_item]\<rparr>, 36)"
  by code_simp

theorem identifier_uniqueness_preserved_witness:
  "ids_unique [demo_list, legacy_list\<lparr>viewId := Some ''abcdefghi'', updatedAt := 30\<rparr>]
 \<and> ids_unique [demo_list, legacy_list,
      \<lparr>list_id = 3, userId = Some 7, shareId = ''abcdefghi'', viewId = Some ''stuvwxyz0'',
       title = ''Chores'', createdAt = 40, updatedAt = 40\<rparr>]"
proof -
  have a: "ids_unique [demo_list, legacy_list\<lparr>viewId := Some ''abcdefghi'', updatedAt := 30\<rparr>]"
    using identifier_uniqueness_preserved[OF demo_db2_ids_unique,
        where ident = "''ccccccccc''" and now = 30 and tape = tape_count and pos = 0,
        THEN conjunct1]
    unfolding demo_GET_legacy by simp
  have b: "ids_unique [demo_list, legacy_list,
      \<lparr>list_id = 3, userId = Some 7, shareId = ''abcdefghi'', viewId = Some ''stuvwxyz0'',
       title = ''Chores'', createdAt = 40, updatedAt = 40\<rparr>]"
    using identifier_uniqueness_preserved[OF demo_db2_ids_unique,
        where fuel = 1 and verifyToken = demo_verifyToken and auth_token = "Some ''token-u7''"
          and titleField = "JStr ''  Chores ''" and now = 40 and insertedId = 3
          and tape = tape_count and pos = 0,
        THEN conjunct2, THEN conjunct1, THEN mp, OF demo_POST_lists]
    by simp
  show ?thesis using a b by simp
qed

subsection \<open>Lazy generation of the view identifier\<close>

lemma oids_unique_Cons: "oids_unique (x # xs) \<longleftrightarrow> list_id x \<notin> list_id ` set xs \<and> oids_unique xs"
  by (simp add: oids_unique_def)

lemma find_after_updateOne:
  assumes "oids_unique coll" and "find P coll = Some l" and "P (f l)"
  shows "find P (updateOne (\<lambda>x. list_id x = list_id l) f coll) = Some (f l)"
  using assms
proof (induction coll)
  case Nil
  then show ?case by simp
next
  case (Cons x xs)
  show ?case
  proof (cases "P x")
    case True
    then have "x = l" using Cons.prems(2) by simp
    then show ?thesis using Cons.prems(3) by simp
  next
    case False
    then have f: "find P xs = Some l" using Cons.prems(2) by simp
    then have "l \<in> set xs" using find_SomeD by fastforce
    then have "list_id x \<noteq> list_id l" using Cons.prems(1) by (auto simp: oids_unique_Cons)
    moreover have "oids_unique xs" using Cons.prems(1) by (simp add: oids_unique_Cons)
    ultimately show ?thesis using False Cons.IH f Cons.prems(3) by simp
  qed
qed

lemma GET_list_present:
  assumes "isValidShareId ident"
    and "find (\<lambda>l. shareId l = ident \<or> viewId l = Some ident) (listsCollection d) = Some list"
    and "viewId list = Some v" and "v \<noteq> []"
  shows "GET_list ident now tape pos d = (getListResponse list ident d, d, pos)"
  using assms by (simp add: GET_list_def)

lemma GET_list_legacy:
  assumes "isValidShareId ident"
    and "find (\<lambda>l. shareId l = ident \<or> viewId l = Some ident) (listsCollection d) = Some list"
    and "viewId list = None \<or> viewId list = Some []"
  shows "GET_list ident now tape pos d =
     (case lazyViewId tape pos 0 (listsCollection d) of
        (None, pos') \<Rightarrow> (json (ErrorResponse ''Failed to generate viewId'') 500, d, pos')
      | (Some v, pos') \<Rightarrow>
          (getListResponse (list\<lparr>viewId := Some v\<rparr>) ident
             (d\<lparr>listsCollection := updateOne (\<lambda>x. list_id x = list_id list)
                   (\<lambda>x. x\<lparr>viewId := Some v, updatedAt := now\<rparr>) (listsCollection d)\<rparr>),
           d\<lparr>listsCollection := updateOne (\<lambda>x. list_id x = list_id list)
                   (\<lambda>x. x\<lparr>viewId := Some v, updatedAt := now\<rparr>) (listsCollection d)\<rparr>,
           pos'))"
  using assms by (auto simp: GET_list_def Let_def split: prod.splits option.splits)

text \<open>
  C7 (backfill idempotence).  Reading a legacy list (no \<open>viewId\<close>) twice in sequence:
  either the first read gives up with 500 and writes nothing, or it answers 200 with a
  generated \<open>viewId\<close> that is persisted on the record, and the second read answers 200
  with the same \<open>viewId\<close>, writes nothing and draws no random bytes.
\<close>

theorem backfill_idempotent:
  assumes oids: "oids_unique (listsCollection d)"
    and valid: "isValidShareId ident"
    and found: "find (\<lambda>l. shareId l = ident \<or> viewId l = Some ident) (listsCollection d) = Some list"
    and legacy: "viewId list = None"
    and first: "GET_list ident now tape pos d = (r1, d1, pos1)"
    and second: "GET_list ident now' tape' pos1 d1 = (r2, d2, pos2)"
  shows "(status r1 = 500 \<and> d1 = d)
       \<or> (\<exists>v. status r1 = 200 \<and> responseViewId r1 = Some v \<and>
               find (\<lambda>l. shareId l = ident \<or> viewId l = Some ident) (listsCollection d1) =
                 Some (list\<lparr>viewId := Some v, updatedAt := now\<rparr>) \<and>
               status r2 = 200 \<and> responseViewId r2 = Some v \<and> d2 = d1 \<and> pos2 = pos1)"
proof (cases "lazyViewId tape pos 0 (listsCollection d)")
  case (Pair res p)
  show ?thesis
  proof (cases res)
    case None
    then have "GET_list ident now tape pos d =
            (json (ErrorResponse ''Failed to generate viewId'') 500, d, p)"
      using Pair GET_list_legacy[OF valid found, of now tape pos] legacy by simp
    then have "r1 = json (ErrorResponse ''Failed to generate viewId'') 500" "d1 = d"
      unfolding first by blast+
    then show ?thesis by (simp add: json_def)
  next
    case (Some v)
    let ?f = "\<lambda>x. x\<lparr>viewId := Some v, updatedAt := now\<rparr>"
    let ?d1 = "d\<lparr>listsCollection := updateOne (\<lambda>x. list_id x = list_id list) ?f (listsCollection d)\<rparr>"
    have "GET_list ident now tape pos d =
            (getListResponse (list\<lparr>viewId := Some v\<rparr>) ident ?d1, ?d1, p)"
      using Pair Some GET_list_legacy[OF valid found, of now tape pos] legacy by simp
    then have g1: "r1 = getListResponse (list\<lparr>viewId := Some v\<rparr>) ident ?d1" "d1 = ?d1" "pos1 = p"
      unfolding first by blast+
    have vv: "isValidShareId v" using lazyViewId_fresh Pair Some by blast
    have sh: "shareId list = ident" using find_SomeD[OF found] legacy by simp
    have f1: "find (\<lambda>l. shareId l = ident \<or> viewId l = Some ident) (listsCollection d1) = Some (?f list)"
      unfolding g1 using find_after_updateOne[OF oids found, of ?f] sh by simp
    have g2: "GET_list ident now' tape' pos1 d1 = (getListResponse (?f list) ident d1, d1, pos1)"
      by (rule GET_list_present[OF valid f1, of v]) (simp_all add: valid_nonempty[OF vv])
    have "status r1 = 200" "responseViewId r1 = Some v"
      unfolding g1 by (simp_all add: getListResponse_status getListResponse_viewId)
    moreover have h2: "r2 = getListResponse (?f list) ident d1" "d2 = d1" "pos2 = pos1"
      using g2 unfolding second by blast+
    moreover have "status r2 = 200" "responseViewId r2 = Some v"
      unfolding h2 by (simp_all add: getListResponse_status getListResponse_viewId)
    ultimately show ?thesis using f1 by blast
  qed
qed

lemma demo_GET_legacy_again:
  "GET_list ''ccccccccc'' 50 tape 18
     \<lparr>listsCollection = [demo_list, legacy_list\<lparr>viewId := Some ''abcdefghi'', updatedAt := 30\<rparr>],
      itemsCollection = [demo_item]\<rparr> =
     (json (GetListResponse
              \<lparr>api_id = 2, api_shareId = ''ccccccccc'', api_viewId = Some ''abcdefghi'',
               api_title = ''Old list'', api_createdAt = 1, api_updatedAt = 30,
               permission = Some edit\<rparr> []) 200,
      \<lparr>listsCollection = [demo_list, legacy_list\<lparr>viewId := Some ''abcdefghi'', updatedAt := 30\<rparr>],
       itemsCollection = [demo_item]\<rparr>, 18)"
  by (simp add: GET_list_def valid_c demo_list_def legacy_list_def demo_item_def
      getListResponse_def serializeTodoList_def detectPermission_def)

theorem backfill_idempotent_witness:
  "responseViewId (fst (GET_list ''ccccccccc'' 30 tape_count 0 demo_db2)) = Some ''abcdefghi''
 \<and> responseViewId (fst (GET_list ''ccccccccc'' 50 tape_count 18
      (fst (snd (GET_list ''ccccccccc'' 30 tape_count 0 demo_db2))))) = Some ''abcdefghi''"
proof -
  have o: "oids_unique (listsCollection demo_db2)"
    by (simp add: oids_unique_def demo_db2_def demo_list_def legacy_list_def)
  have f: "find (\<lambda>l. shareId l = ''ccccccccc'' \<or> viewId l = Some ''ccccccccc'')
             (listsCollection demo_db2) = Some legacy_list"
    by (simp add: demo_db2_def demo_list_def legacy_list_def)
  have l: "viewId legacy_list = None" by (simp add: legacy_list_def)
  from backfill_idempotent[OF o valid_c f l demo_GET_legacy demo_GET_legacy_again]
  show ?thesis
    by (simp add: demo_GET_legacy demo_GET_legacy_again json_def responseViewId_def)
qed

subsection \<open>Frame conditions\<close>

lemma findOneAndUpdate_None:
  "findOneAndUpdate p f ds = (None, ds') \<Longrightarrow> ds' = ds"
  by (auto simp: findOneAndUpdate_def updateOne_no_match)

lemma db_update_same [simp]: "d\<lparr>listsCollection := listsCollection d\<rparr> = d"
  "d\<lparr>itemsCollection := itemsCollection d\<rparr> = d"
  by simp_all

lemma GET_list_error_unchanged:
  "status (fst (GET_list ident now tape pos d)) \<noteq> 200 \<Longrightarrow> fst (snd (GET_list ident now tape pos d)) = d"
  by (auto simp: GET_list_def Let_def json_def getListResponse_status
      split: if_splits option.splits prod.splits)

lemma PATCH_list_error_unchanged:
  "status (fst (PATCH_list ident titleField now d)) \<noteq> 200 \<Longrightarrow> snd (PATCH_list ident titleField now d) = d"
  by (auto simp: PATCH_list_def json_def split: if_splits option.splits prod.splits
      dest!: findOneAndUpdate_None)

lemma POST_item_error_unchanged:
  "status (fst (POST_item ident textField now insertedId d)) \<noteq> 201 \<Longrightarrow>
   snd (POST_item ident textField now insertedId d) = d"
  by (auto simp: POST_item_def json_def Let_def split: if_splits option.splits)

lemma PATCH_item_error_unchanged:
  "status (fst (PATCH_item ident itemId textField completedField orderField now now2 d)) \<noteq> 200 \<longrightarrow>
   snd (PATCH_item ident itemId textField completedField orderField now now2 d) = d"
  unfolding PATCH_item_def json_def
  by (auto split: option.splits prod.splits sum.splits dest!: findOneAndUpdate_None)

lemma deleteOne_zero: "deleteOne p ds = (0, ds') \<Longrightarrow> ds' = ds"
  by (induction ds arbitrary: ds') (auto split: if_splits prod.splits)

lemma DELETE_item_error_unchanged:
  "status (fst (DELETE_item ident itemId now d)) \<noteq> 200 \<Longrightarrow> snd (DELETE_item ident itemId now d) = d"
  by (auto simp: DELETE_item_def json_def Let_def split: if_splits option.splits prod.splits
      dest!: deleteOne_zero)

lemma DELETE_list_error_unchanged:
  "status (fst (DELETE_list verifyToken auth_token ident d)) \<noteq> 200 \<Longrightarrow>
   snd (DELETE_list verifyToken auth_token ident d) = d"
  by (auto simp: DELETE_list_def json_def Let_def split: if_splits option.splits)

lemma deleteOne_subset: "set (snd (deleteOne p ds)) \<subseteq> set ds"
  by (induction ds) (auto split: prod.splits)

lemma DELETE_list_subset:
  "set (listsCollection (snd (DELETE_list verifyToken auth_token ident d))) \<subseteq> set (listsCollection d)"
  using deleteOne_subset[of "\<lambda>x. list_id x = list_id l" "listsCollection d" for l]
  by (auto simp: DELETE_list_def json_def Let_def split: if_splits option.splits)

lemma POST_lists_frame:
  "POST_lists fuel verifyToken auth_token titleField now insertedId tape pos d = Some (r, d', pos') \<Longrightarrow>
   (status r \<noteq> 201 \<longrightarrow> d' = d) \<and>
   take (length (listsCollection d)) (listsCollection d') = listsCollection d \<and>
   itemsCollection d' = itemsCollection d"
  by (auto simp: POST_lists_def json_def Let_def split: if_splits option.splits prod.splits)

lemma touchesOnly_refl: "touchesOnly oid coll coll"
  by (simp add: touchesOnly_def list_all2_same)

lemma touchesOnly_updateOne: "touchesOnly oid coll (updateOne (\<lambda>x. list_id x = oid) f coll)"
  by (induction coll) (auto simp: touchesOnly_def list_all2_same)

lemma GET_list_touchesOnly:
  "find (\<lambda>l. shareId l = ident \<or> viewId l = Some ident) (listsCollection d) = Some list \<Longrightarrow>
   touchesOnly (list_id list) (listsCollection d)
     (listsCollection (fst (snd (GET_list ident now tape pos d))))"
  by (auto simp: GET_list_def Let_def touchesOnly_refl touchesOnly_updateOne
      split: option.splits prod.splits)

lemma PATCH_list_success:
  "status (fst (PATCH_list ident titleField now d)) = 200 \<longrightarrow>
     (\<exists>list t. find (\<lambda>l. shareId l = ident \<or> viewId l = Some ident) (listsCollection d) = Some list
        \<and> detectPermission list ident = edit \<and> titleField = JStr t
        \<and> snd (PATCH_list ident titleField now d) =
            d\<lparr>listsCollection := updateOne (\<lambda>x. list_id x = list_id list)
                 (\<lambda>x. x\<lparr>title := trim t, updatedAt := now\<rparr>) (listsCollection d)\<rparr>)"
  unfolding PATCH_list_def json_def findOneAndUpdate_def
  by (cases titleField) (auto split: option.splits)

lemma POST_item_success:
  "status (fst (POST_item ident textField now insertedId d)) = 201 \<longrightarrow>
     (\<exists>list. find (\<lambda>l. shareId l = ident \<or> viewId l = Some ident) (listsCollection d) = Some list
        \<and> detectPermission list ident = edit
        \<and> listsCollection (snd (POST_item ident textField now insertedId d)) =
            updateOne (\<lambda>x. list_id x = list_id list) (\<lambda>x. x\<lparr>updatedAt := now\<rparr>)
              (listsCollection d))"
  unfolding POST_item_def json_def Let_def
  by (auto split: option.splits)

lemma PATCH_item_success:
  "status (fst (PATCH_item ident itemId textField completedField orderField now now2 d)) = 200 \<longrightarrow>
     (\<exists>list. find (\<lambda>l. shareId l = ident \<or> viewId l = Some ident) (listsCollection d) = Some list
        \<and> detectPermission list ident = edit
        \<and> listsCollection
             (snd (PATCH_item ident itemId textField completedField orderField now now2 d)) =
            updateOne (\<lambda>x. list_id x = list_id list) (\<lambda>x. x\<lparr>updatedAt := now2\<rparr>)
              (listsCollection d))"
  unfolding PATCH_item_def json_def
  by (auto split: option.splits prod.splits sum.splits)

lemma DELETE_item_success:
  "status (fst (DELETE_item ident itemId now d)) = 200 \<longrightarrow>
     (\<exists>list. find (\<lambda>l. shareId l = ident \<or> viewId l = Some ident) (listsCollection d) = Some list
        \<and> detectPermission list ident = edit
        \<and> listsCollection (snd (DELETE_item ident itemId now d)) =
            updateOne (\<lambda>x. list_id x = list_id list) (\<lambda>x. x\<lparr>updatedAt := now\<rparr>)
              (listsCollection d))"
  unfolding DELETE_item_def json_def Let_def
  by (auto split: option.splits prod.splits)

text \<open>
  C9 (frame condition of \<open>updatedAt\<close>).  A read of a list that has a \<open>viewId\<close> returns
  the store as it was and draws no random bytes.  A read of a list without one either gives
  up (500, store unchanged) or answers 200 and writes the new \<open>viewId\<close> and
  \<open>updatedAt := now\<close> in one update of that record, and nothing else.  Every handler
  that does not answer with its success status (200, or 201 for the two creations) returns
  the store as it was; list deletion only removes records and list creation only appends
  one.  A successful title update, item creation, item update or item deletion writes the
  list collection by one \<open>updateOne\<close> on the \<open>_id\<close> of the list the identifier
  addresses (the title and \<open>updatedAt\<close>, or \<open>updatedAt\<close> alone), so that every record
  with another \<open>_id\<close> is as it was; the same holds for the read with its lazy generation.
\<close>

theorem updatedAt_frame:
  "(isValidShareId ident \<and>
    find (\<lambda>l. shareId l = ident \<or> viewId l = Some ident) (listsCollection d) = Some list \<and>
    viewId list = Some v \<and> v \<noteq> [] \<longrightarrow>
      GET_list ident now tape pos d = (getListResponse list ident d, d, pos))
 \<and> (isValidShareId ident \<and>
    find (\<lambda>l. shareId l = ident \<or> viewId l = Some ident) (listsCollection d) = Some list \<and>
    (viewId list = None \<or> viewId list = Some []) \<longrightarrow>
      (case lazyViewId tape pos 0 (listsCollection d) of
         (None, pos') \<Rightarrow>
           GET_list ident now tape pos d =
             (json (ErrorResponse ''Failed to generate viewId'') 500, d, pos')
       | (Some w, pos') \<Rightarrow>
           status (fst (GET_list ident now tape pos d)) = 200 \<and>
           snd (GET_list ident now tape pos d) =
             (d\<lparr>listsCollection := updateOne (\<lambda>x. list_id x = list_id list)
                   (\<lambda>x. x\<lparr>viewId := Some w, updatedAt := now\<rparr>) (listsCollection d)\<rparr>, pos')))
 \<and> (status (fst (GET_list ident now tape pos d)) \<noteq> 200 \<longrightarrow>
      fst (snd (GET_list ident now tape pos d)) = d)
 \<and> (status (fst (PATCH_list ident titleField now d)) \<noteq> 200 \<longrightarrow>
      snd (PATCH_list ident titleField now d) = d)
 \<and> (status (fst (POST_item ident textField now insertedId d)) \<noteq> 201 \<longrightarrow>
      snd (POST_item ident textField now insertedId d) = d)
 \<and> (status (fst (PATCH_item ident itemId textField completedField orderField now now2 d)) \<noteq> 200 \<longrightarrow>
      snd (PATCH_item ident itemId textField completedField orderField now now2 d) = d)
 \<and> (status (fst (DELETE_item ident itemId now d)) \<noteq> 200 \<longrightarrow>
      snd (DELETE_item ident itemId now d) = d)
 \<and> (status (fst (DELETE_list verifyToken auth_token ident d)) \<noteq> 200 \<longrightarrow>
      snd (DELETE_list verifyToken auth_token ident d) = d)
 \<and> set (listsCollection (snd (DELETE_list verifyToken auth_token ident d)))
      \<subseteq> set (listsCollection d)
 \<and> (POST_lists fuel verifyToken auth_token titleField now insertedId tape pos d
       = Some (r, d', pos') \<longrightarrow>
      (status r \<noteq> 201 \<longrightarrow> d' = d) \<and>
      take (length (listsCollection d)) (listsCollection d') = listsCollection d)
 \<and> (find (\<lambda>l. shareId l = ident \<or> viewId l = Some ident) (listsCollection d) = Some list \<longrightarrow>
      touchesOnly (list_id list) (listsCollection d)
        (listsCollection (fst (snd (GET_list ident now tape pos d)))))
 \<and> (status (fst (PATCH_list ident titleField now d)) = 200 \<longrightarrow>
      (\<exists>l t. find (\<lambda>l. shareId l = ident \<or> viewId l = Some ident) (listsCollection d) = Some l
         \<and> titleField = JStr t
         \<and> snd (PATCH_list ident titleField now d) =
             d\<lparr>listsCollection := updateOne (\<lambda>x. list_id x = list_id l)
                  (\<lambda>x. x\<lparr>title := trim t, updatedAt := now\<rparr>) (listsCollection d)\<rparr>
         \<and> touchesOnly (list_id l) (listsCollection d)
             (listsCollection (snd (PATCH_list ident titleField now d)))))
 \<and> (status (fst (POST_item ident textField now insertedId d)) = 201 \<longrightarrow>
      (\<exists>l. find (\<lambda>l. shareId l = ident \<or> viewId l = Some ident) (listsCollection d) = Some l
         \<and> listsCollection (snd (POST_item ident textField now insertedId d)) =
             updateOne (\<lambda>x. list_id x = list_id l) (\<lambda>x. x\<lparr>updatedAt := now\<rparr>)
               (listsCollection d)
         \<and> touchesOnly (list_id l) (listsCollection d)
             (listsCollection (snd (POST_item ident textField now insertedId d)))))
 \<and> (status (fst (PATCH_item ident itemId textField completedField orderField now now2 d)) = 200 \<longrightarrow>
      (\<exists>l. find (\<lambda>l. shareId l = ident \<or> viewId l = Some ident) (listsCollection d) = Some l
         \<and> listsCollection
              (snd (PATCH_item ident itemId textField completedField orderField now now2 d)) =
             updateOne (\<lambda>x. list_id x = list_id l) (\<lambda>x. x\<lparr>updatedAt := now2\<rparr>)
               (listsCollection d)
         \<and> touchesOnly (list_id l) (listsCollection d)
             (listsCollection
                (snd (PATCH_item ident itemId textField completedField orderField now now2 d)))))
 \<and> (status (fst (DELETE_item ident itemId now d)) = 200 \<longrightarrow>
      (\<exists>l. find (\<lambda>l. shareId l = ident \<or> viewId l = Some ident) (listsCollection d) = Some l
         \<and> listsCollection (snd (DELETE_item ident itemId now d)) =
             updateOne (\<lambda>x. list_id x = list_id l) (\<lambda>x. x\<lparr>updatedAt := now\<rparr>)
               (listsCollection d)
         \<and> touchesOnly (list_id l) (listsCollection d)
             (listsCollection (snd (DELETE_item ident itemId now d)))))"
proof -
  have a: "isValidShareId ident \<and>
    find (\<lambda>l. shareId l = ident \<or> viewId l = Some ident) (listsCollection d) = Some list \<and>
    viewId list = Some v \<and> v \<noteq> [] \<longrightarrow>
      GET_list ident now tape pos d = (getListResponse list ident d, d, pos)"
    using GET_list_present by blast
  have b: "isValidShareId ident \<and>
    find (\<lambda>l. shareId l = ident \<or> viewId l = Some ident) (listsCollection d) = Some list \<and>
    (viewId list = None \<or> viewId list = Some []) \<longrightarrow>
      (case lazyViewId tape pos 0 (listsCollection d) of
         (None, pos') \<Rightarrow>
           GET_list ident now tape pos d =
             (json (ErrorResponse ''Failed to generate viewId'') 500, d, pos')
       | (Some w, pos') \<Rightarrow>
           status (fst (GET_list ident now tape pos d)) = 200 \<and>
           snd (GET_list ident now tape pos d) =
             (d\<lparr>listsCollection := updateOne (\<lambda>x. list_id x = list_id list)
                   (\<lambda>x. x\<lparr>viewId := Some w, updatedAt := now\<rparr>) (listsCollection d)\<rparr>, pos'))"
  proof (intro impI)
    assume h: "isValidShareId ident \<and>
      find (\<lambda>l. shareId l = ident \<or> viewId l = Some ident) (listsCollection d) = Some list \<and>
      (viewId list = None \<or> viewId list = Some [])"
    then have g: "GET_list ident now tape pos d =
       (case lazyViewId tape pos 0 (listsCollection d) of
          (None, pos') \<Rightarrow> (json (ErrorResponse ''Failed to generate viewId'') 500, d, pos')
        | (Some v, pos') \<Rightarrow>
            (getListResponse (list\<lparr>viewId := Some v\<rparr>) ident
               (d\<lparr>listsCollection := updateOne (\<lambda>x. list_id x = list_id list)
                     (\<lambda>x. x\<lparr>viewId := Some v, updatedAt := now\<rparr>) (listsCollection d)\<rparr>),
             d\<lparr>listsCollection := updateOne (\<lambda>x. list_id x = list_id list)
                     (\<lambda>x. x\<lparr>viewId := Some v, updatedAt := now\<rparr>) (listsCollection d)\<rparr>,
             pos'))"
      using GET_list_legacy by blast
    show "case lazyViewId tape pos 0 (listsCollection d) of
         (None, pos') \<Rightarrow>
           GET_list ident now tape pos d =
             (json (ErrorResponse ''Failed to generate viewId'') 500, d, pos')
       | (Some w, pos') \<Rightarrow>
           status (fst (GET_list ident now tape pos d)) = 200 \<and>
           snd (GET_list ident now tape pos d) =
             (d\<lparr>listsCollection := updateOne (\<lambda>x. list_id x = list_id list)
                   (\<lambda>x. x\<lparr>viewId := Some w, updatedAt := now\<rparr>) (listsCollection d)\<rparr>, pos')"
      unfolding g by (simp add: getListResponse_status split: prod.splits option.splits)
  qed
  have c: "POST_lists fuel verifyToken auth_token titleField now insertedId tape pos d
       = Some (r, d', pos') \<longrightarrow>
      (status r \<noteq> 201 \<longrightarrow> d' = d) \<and>
      take (length (listsCollection d)) (listsCollection d') = listsCollection d"
    using POST_lists_frame by blast
  have e1: "status (fst (GET_list ident now tape pos d)) \<noteq> 200 \<longrightarrow>
      fst (snd (GET_list ident now tape pos d)) = d"
    using GET_list_error_unchanged by blast
  have e2: "status (fst (PATCH_list ident titleField now d)) \<noteq> 200 \<longrightarrow>
      snd (PATCH_list ident titleField now d) = d"
    using PATCH_list_error_unchanged by blast
  have e3: "status (fst (POST_item ident textField now insertedId d)) \<noteq> 201 \<longrightarrow>
      snd (POST_item ident textField now insertedId d) = d"
    using POST_item_error_unchanged by blast
  have e4: "status (fst (PATCH_item ident itemId textField completedField orderField now now2 d)) \<noteq> 200 \<longrightarrow>
      snd (PATCH_item ident itemId textField completedField orderField now now2 d) = d"
    by (rule PATCH_item_error_unchanged)
  have e5: "status (fst (DELETE_item ident itemId now d)) \<noteq> 200 \<longrightarrow>
      snd (DELETE_item ident itemId now d) = d"
    using DELETE_item_error_unchanged by blast
  have e6: "status (fst (DELETE_list verifyToken auth_token ident d)) \<noteq> 200 \<longrightarrow>
      snd (DELETE_list verifyToken auth_token ident d) = d"
    using DELETE_list_error_unchanged by blast
  have g: "find (\<lambda>l. shareId l = ident \<or> viewId l = Some ident) (listsCollection d) = Some list \<longrightarrow>
      touchesOnly (list_id list) (listsCollection d)
        (listsCollection (fst (snd (GET_list ident now tape pos d))))"
    using GET_list_touchesOnly by blast
  have k1: "status (fst (PATCH_list ident titleField now d)) = 200 \<longrightarrow>
      (\<exists>l t. find (\<lambda>l. shareId l = ident \<or> viewId l = Some ident) (listsCollection d) = Some l
         \<and> titleField = JStr t
         \<and> snd (PATCH_list ident titleField now d) =
             d\<lparr>listsCollection := updateOne (\<lambda>x. list_id x = list_id l)
                  (\<lambda>x. x\<lparr>title := trim t, updatedAt := now\<rparr>) (listsCollection d)\<rparr>
         \<and> touchesOnly (list_id l) (listsCollection d)
             (listsCollection (snd (PATCH_list ident titleField now d))))"
  proof
    assume "status (fst (PATCH_list ident titleField now d)) = 200"
    then obtain l t where
      h: "find (\<lambda>l. shareId l = ident \<or> viewId l = Some ident) (listsCollection d) = Some l"
         "titleField = JStr t"
         "snd (PATCH_list ident titleField now d) =
             d\<lparr>listsCollection := updateOne (\<lambda>x. list_id x = list_id l)
                  (\<lambda>x. x\<lparr>title := trim t, updatedAt := now\<rparr>) (listsCollection d)\<rparr>"
      using PATCH_list_success[of ident titleField now d] by blast
    have "touchesOnly (list_id l) (listsCollection d)
             (listsCollection (snd (PATCH_list ident titleField now d)))"
      unfolding h(3) by (simp add: touchesOnly_updateOne)
    with h show "\<exists>l t. find (\<lambda>l. shareId l = ident \<or> viewId l = Some ident) (listsCollection d) = Some l
         \<and> titleField = JStr t
         \<and> snd (PATCH_list ident titleField now d) =
             d\<lparr>listsCollection := updateOne (\<lambda>x. list_id x = list_id l)
                  (\<lambda>x. x\<lparr>title := trim t, updatedAt := now\<rparr>) (listsCollection d)\<rparr>
         \<and> touchesOnly (list_id l) (listsCollection d)
             (listsCollection (snd (PATCH_list ident titleField now d)))"
      by blast
  qed
  have k2: "status (fst (POST_item ident textField now insertedId d)) = 201 \<longrightarrow>
      (\<exists>l. find (\<lambda>l. shareId l = ident \<or> viewId l = Some ident) (listsCollection d) = Some l
         \<and> listsCollection (snd (POST_item ident textField now insertedId d)) =
             updateOne (\<lambda>x. list_id x = list_id l) (\<lambda>x. x\<lparr>updatedAt := now\<rparr>)
               (listsCollection d)
         \<and> touchesOnly (list_id l) (listsCollection d)
             (listsCollection (snd (POST_item ident textField now insertedId d))))"
  proof
    assume "status (fst (POST_item ident textField now insertedId d)) = 201"
    then obtain l where
      h: "find (\<lambda>l. shareId l = ident \<or> viewId l = Some ident) (listsCollection d) = Some l"
         "listsCollection (snd (POST_item ident textField now insertedId d)) =
             updateOne (\<lambda>x. list_id x = list_id l) (\<lambda>x. x\<lparr>updatedAt := now\<rparr>)
               (listsCollection d)"
      using POST_item_success[of ident textField now insertedId d] by blast
    have "touchesOnly (list_id l) (listsCollection d)
             (listsCollection (snd (POST_item ident textField now insertedId d)))"
      unfolding h(2) by (rule touchesOnly_updateOne)
    with h show "\<exists>l. find (\<lambda>l. shareId l = ident \<or> viewId l = Some ident) (listsCollection d) = Some l
         \<and> listsCollection (snd (POST_item ident textField now insertedId d)) =
             updateOne (\<lambda>x. list_id x = list_id l) (\<lambda>x. x\<lparr>updatedAt := now\<rparr>)
               (listsCollection d)
         \<and> touchesOnly (list_id l) (listsCollection d)
             (listsCollection (snd (POST_item ident textField now insertedId d)))"
      by blast
  qed
  have k3: "status (fst (PATCH_item ident itemId textField completedField orderField now now2 d)) = 200 \<longrightarrow>
      (\<exists>l. find (\<lambda>l. shareId l = ident \<or> viewId l = Some ident) (listsCollection d) = Some l
         \<and> listsCollection
              (snd (PATCH_item ident itemId textField completedField orderField now now2 d)) =
             updateOne (\<lambda>x. list_id x = list_id l) (\<lambda>x. x\<lparr>updatedAt := now2\<rparr>)
               (listsCollection d)
         \<and> touchesOnly (list_id l) (listsCollection d)
             (listsCollection
                (snd (PATCH_item ident itemId textField completedField orderField now now2 d))))"
  proof
    assume "status (fst (PATCH_item ident itemId textField completedField orderField now now2 d)) = 200"
    then obtain l where
      h: "find (\<lambda>l. shareId l = ident \<or> viewId l = Some ident) (listsCollection d) = Some l"
         "listsCollection
              (snd (PATCH_item ident itemId textField completedField orderField now now2 d)) =
             updateOne (\<lambda>x. list_id x = list_id l) (\<lambda>x. x\<lparr>updatedAt := now2\<rparr>)
               (listsCollection d)"
      using PATCH_item_success[of ident itemId textField completedField orderField now now2 d]
      by blast
    have "touchesOnly (list_id l) (listsCollection d)
             (listsCollection
                (snd (PATCH_item ident itemId textField completedField orderField now now2 d)))"
      unfolding h(2) by (rule touchesOnly_updateOne)
    with h show "\<exists>l. find (\<lambda>l. shareId l = ident \<or> viewId l = Some ident) (listsCollection d) = Some l
         \<and> listsCollection
              (snd (PATCH_item ident itemId textField completedField orderField now now2 d)) =
             updateOne (\<lambda>x. list_id x = list_id l) (\<lambda>x. x\<lparr>updatedAt := now2\<rparr>)
               (listsCollection d)
         \<and> touchesOnly (list_id l) (listsCollection d)
             (listsCollection
                (snd (PATCH_item ident itemId textField completedField orderField now now2 d)))"
      by blast
  qed
  have k4: "status (fst (DELETE_item ident itemId now d)) = 200 \<longrightarrow>
      (\<exists>l. find (\<lambda>l. shareId l = ident \<or> viewId l = Some ident) (listsCollection d) = Some l
         \<and> listsCollection (snd (DELETE_item ident itemId now d)) =
             updateOne (\<lambda>x. list_id x = list_id l) (\<lambda>x. x\<lparr>updatedAt := now\<rparr>)
               (listsCollection d)
         \<and> touchesOnly (list_id l) (listsCollection d)
             (listsCollection (snd (DELETE_item ident itemId now d))))"
  proof
    assume "status (fst (DELETE_item ident itemId now d)) = 200"
    then obtain l where
      h: "find (\<lambda>l. shareId l = ident \<or> viewId l = Some ident) (listsCollection d) = Some l"
         "listsCollection (snd (DELETE_item ident itemId now d)) =
             updateOne (\<lambda>x. list_id x = list_id l) (\<lambda>x. x\<lparr>updatedAt := now\<rparr>)
               (listsCollection d)"
      using DELETE_item_success[of ident itemId now d] by blast
    have "touchesOnly (list_id l) (listsCollection d)
             (listsCollection (snd (DELETE_item ident itemId now d)))"
      unfolding h(2) by (rule touchesOnly_updateOne)
    with h show "\<exists>l. find (\<lambda>l. shareId l = ident \<or> viewId l = Some ident) (listsCollection d) = Some l
         \<and> listsCollection (snd (DELETE_item ident itemId now d)) =
             updateOne (\<lambda>x. list_id x = list_id l) (\<lambda>x. x\<lparr>updatedAt := now\<rparr>)
               (listsCollection d)
         \<and> touchesOnly (list_id l) (listsCollection d)
             (listsCollection (snd (DELETE_item ident itemId now d)))"
      by blast
  qed
  show ?thesis
    by (intro conjI a b c e1 e2 e3 e4 e5 e6 DELETE_list_subset g k1 k2 k3 k4)
qed

lemma demo_lazyViewId:
  "lazyViewId tape_count 0 0 (listsCollection demo_db2) = (Some ''abcdefghi'', 18)"
  by code_simp

lemma demo_POST_item_status:
  "status (fst (POST_item ''aaaaaaaaa'' (JStr ''Buy eggs'') 30 101 demo_db2)) = 201"
  by code_simp

lemma demo_DELETE_item_status:
  "status (fst (DELETE_item ''aaaaaaaaa'' (Some 100) 31 demo_db2)) = 200"
  by code_simp

theorem updatedAt_frame_witness:
  "GET_list ''aaaaaaaaa'' 30 tape_count 0 demo_db2 =
     (getListResponse demo_list ''aaaaaaaaa'' demo_db2, demo_db2, 0)
 \<and> snd (GET_list ''ccccccccc'' 30 tape_count 0 demo_db2) =
     (demo_db2\<lparr>listsCollection := updateOne (\<lambda>x. list_id x = list_id legacy_list)
        (\<lambda>x. x\<lparr>viewId := Some ''abcdefghi'', updatedAt := 30\<rparr>) (listsCollection demo_db2)\<rparr>, 18)
 \<and> snd (DELETE_list demo_verifyToken (Some ''token-u8'') ''aaaaaaaaa'' demo_db2) = demo_db2
 \<and> listsCollection (snd (POST_item ''aaaaaaaaa'' (JStr ''Buy eggs'') 30 101 demo_db2)) =
     [demo_list\<lparr>updatedAt := 30\<rparr>, legacy_list]
 \<and> listsCollection (snd (DELETE_item ''aaaaaaaaa'' (Some 100) 31 demo_db2)) =
     [demo_list\<lparr>updatedAt := 31\<rparr>, legacy_list]"
proof -
  have fa: "find (\<lambda>l. shareId l = ''aaaaaaaaa'' \<or> viewId l = Some ''aaaaaaaaa'')
              (listsCollection demo_db2) = Some demo_list"
    by (simp add: demo_db2_def demo_list_def)
  have fc: "find (\<lambda>l. shareId l = ''ccccccccc'' \<or> viewId l = Some ''ccccccccc'')
             (listsCollection demo_db2) = Some legacy_list"
    by (simp add: demo_db2_def demo_list_def legacy_list_def)
  have va: "viewId demo_list = Some ''bbbbbbbbb''" by (simp add: demo_list_def)
  have vc: "viewId legacy_list = None" by (simp add: legacy_list_def)
  have st: "status (fst (DELETE_list demo_verifyToken (Some ''token-u8'') ''aaaaaaaaa'' demo_db2))
              \<noteq> 200"
    by (simp add: DELETE_list_def requireAuth_def getAuthContext_def demo_verifyToken_def valid_a
        demo_db2_def demo_list_def json_def)
  have up: "updateOne (\<lambda>x. list_id x = list_id demo_list) f (listsCollection demo_db2) =
              [f demo_list, legacy_list]" for f
    by (simp add: demo_db2_def demo_list_def)
  note A = updatedAt_frame[where ident = "''aaaaaaaaa''" and d = demo_db2 and list = demo_list
      and v = "''bbbbbbbbb''" and now = 30 and tape = tape_count and pos = 0
      and verifyToken = demo_verifyToken and auth_token = "Some ''token-u8''"
      and textField = "JStr ''Buy eggs''" and insertedId = 101]
  note B = updatedAt_frame[where ident = "''aaaaaaaaa''" and d = demo_db2 and now = 31
      and itemId = "Some 100"]
  note C = updatedAt_frame[where ident = "''ccccccccc''" and d = demo_db2 and list = legacy_list
      and now = 30 and tape = tape_count and pos = 0]
  have c1: "GET_list ''aaaaaaaaa'' 30 tape_count 0 demo_db2 =
     (getListResponse demo_list ''aaaaaaaaa'' demo_db2, demo_db2, 0)"
    using A[THEN conjunct1] valid_a fa va by simp
  have c2: "snd (GET_list ''ccccccccc'' 30 tape_count 0 demo_db2) =
     (demo_db2\<lparr>listsCollection := updateOne (\<lambda>x. list_id x = list_id legacy_list)
        (\<lambda>x. x\<lparr>viewId := Some ''abcdefghi'', updatedAt := 30\<rparr>) (listsCollection demo_db2)\<rparr>, 18)"
    using C[THEN conjunct2, THEN conjunct1] valid_c fc vc by (simp add: demo_lazyViewId)
  have c3: "snd (DELETE_list demo_verifyToken (Some ''token-u8'') ''aaaaaaaaa'' demo_db2) = demo_db2"
    using A[THEN conjunct2, THEN conjunct2, THEN conjunct2, THEN conjunct2, THEN conjunct2,
        THEN conjunct2, THEN conjunct2, THEN conjunct1] st by simp
  have "\<exists>l. find (\<lambda>l. shareId l = ''aaaaaaaaa'' \<or> viewId l = Some ''aaaaaaaaa'')
               (listsCollection demo_db2) = Some l
         \<and> listsCollection (snd (POST_item ''aaaaaaaaa'' (JStr ''Buy eggs'') 30 101 demo_db2)) =
             updateOne (\<lambda>x. list_id x = list_id l) (\<lambda>x. x\<lparr>updatedAt := 30\<rparr>)
               (listsCollection demo_db2)
         \<and> touchesOnly (list_id l) (listsCollection demo_db2)
             (listsCollection (snd (POST_item ''aaaaaaaaa'' (JStr ''Buy eggs'') 30 101 demo_db2)))"
    by (rule A[THEN conjunct2, THEN conjunct2, THEN conjunct2, THEN conjunct2, THEN conjunct2,
        THEN conjunct2, THEN conjunct2, THEN conjunct2, THEN conjunct2, THEN conjunct2,
        THEN conjunct2, THEN conjunct2, THEN conjunct1, THEN mp, OF demo_POST_item_status])
  then have c4: "listsCollection (snd (POST_item ''aaaaaaaaa'' (JStr ''Buy eggs'') 30 101 demo_db2)) =
     [demo_list\<lparr>updatedAt := 30\<rparr>, legacy_list]"
    unfolding fa by (auto simp: up)
  have "\<exists>l. find (\<lambda>l. shareId l = ''aaaaaaaaa'' \<or> viewId l = Some ''aaaaaaaaa'')
               (listsCollection demo_db2) = Some l
         \<and> listsCollection (snd (DELETE_item ''aaaaaaaaa'' (Some 100) 31 demo_db2)) =
             updateOne (\<lambda>x. list_id x = list_id l) (\<lambda>x. x\<lparr>updatedAt := 31\<rparr>)
               (listsCollection demo_db2)
         \<and> touchesOnly (list_id l) (listsCollection demo_db2)
             (listsCollection (snd (DELETE_item ''aaaaaaaaa'' (Some 100) 31 demo_db2)))"
    by (rule B[THEN conjunct2, THEN conjunct2, THEN conjunct2, THEN conjunct2, THEN conjunct2,
        THEN conjunct2, THEN conjunct2, THEN conjunct2, THEN conjunct2, THEN conjunct2,
        THEN conjunct2, THEN conjunct2, THEN conjunct2, THEN conjunct2, THEN mp,
        OF demo_DELETE_item_status])
  then have c5: "listsCollection (snd (DELETE_item ''aaaaaaaaa'' (Some 100) 31 demo_db2)) =
     [demo_list\<lparr>updatedAt := 31\<rparr>, legacy_list]"
    unfolding fa by (auto simp: up)
  show ?thesis using c1 c2 c3 c4 c5 by simp
qed

subsection \<open>Owner access\<close>









lemma auth_u7:
  "requireAuth demo_verifyToken (Some ''token-u7'') =
     Some \<lparr>auth_userId = 7, auth_email = ''u7@example.com''\<rparr>"
  by (simp add: requireAuth_def getAuthContext_def demo_verifyToken_def)

lemma trim_Groceries: "trim ''Groceries'' = ''Groceries''"
  by code_simp




subsection \<open>Retry loop of list creation\<close>

text \<open>
  Collisions with stored identifiers are counted: when no pair of fresh identifiers is a
  pair of equal identifiers, the loop returns within \<open>maxAttempts\<close> iterations.
\<close>

lemma store_collisions_bounded:
  "attempts < maxAttempts \<Longrightarrow> maxAttempts \<le> attempts + fuel \<Longrightarrow>
   (\<forall>k<fuel. fst (generateShareId tape (pos + 36 * k)) \<noteq>
              fst (generateShareId tape (pos + 36 * k + 18))) \<Longrightarrow>
   generateUniqueIds fuel tape pos attempts coll \<noteq> None"
proof (induction fuel arbitrary: pos attempts)
  case 0
  then show ?case by simp
next
  case (Suc fuel)
  obtain s1 p1 where g1: "generateShareId tape pos = (s1, p1)" by (cases "generateShareId tape pos")
  have p1: "p1 = pos + 18" using generateShareId_pos[of tape pos] g1 by simp
  obtain v1 p2 where g2: "generateShareId tape p1 = (v1, p2)" by (cases "generateShareId tape p1")
  have p2: "p2 = pos + 36" using generateShareId_pos[of tape p1] g2 p1 by simp
  have ne: "s1 \<noteq> v1" using Suc.prems(3)[rule_format, of 0] g1 g2 p1 by simp
  show ?case
  proof (cases "find (\<lambda>l. shareId l = s1 \<or> viewId l = Some s1 \<or> shareId l = v1 \<or> viewId l = Some v1) coll")
    case None
    then show ?thesis using g1 g2 ne by simp
  next
    case (Some a)
    show ?thesis
    proof (cases "attempts + 1 \<ge> maxAttempts")
      case True
      then show ?thesis using g1 g2 ne Some by simp
    next
      case False
      have "\<forall>k<fuel. fst (generateShareId tape (p2 + 36 * k)) \<noteq>
              fst (generateShareId tape (p2 + 36 * k + 18))"
      proof (intro allI impI)
        fix k assume "k < fuel"
        then have "Suc k < Suc fuel" by simp
        from Suc.prems(3)[rule_format, OF this] show
          "fst (generateShareId tape (p2 + 36 * k)) \<noteq> fst (generateShareId tape (p2 + 36 * k + 18))"
          by (simp add: p2 algebra_simps)
      qed
      moreover have "attempts + 1 < maxAttempts" "maxAttempts \<le> (attempts + 1) + fuel"
        using False Suc.prems(2) by simp_all
      ultimately have "generateUniqueIds fuel tape p2 (attempts + 1) coll \<noteq> None"
        using Suc.IH by blast
      then show ?thesis using g1 g2 ne Some False by simp
    qed
  qed
qed

lemma generateShareId_zero: "generateShareId (\<lambda>_. 0) pos = (''aaaaaaaaa'', pos + 18)"
  by (simp add: generateShareId_def randomBytes_def chars_def upt_conv_Cons)

lemma generateUniqueIds_zero: "generateUniqueIds fuel (\<lambda>_. 0) pos attempts coll = None"
  by (induction fuel arbitrary: pos) (simp_all add: generateShareId_zero)

lemma demo_late_6:
  "POST_lists 6 demo_verifyToken (Some ''token-u7'') (JStr ''Groceries'') 40 3 tape_late 0 demo_db
     = None"
  by code_simp

lemma demo_late_7:
  "POST_lists 7 demo_verifyToken (Some ''token-u7'') (JStr ''Groceries'') 40 3 tape_late 0 demo_db
     = Some (json (ListResponse
              \<lparr>api_id = 3, api_shareId = ''abcdefghi'', api_viewId = Some ''stuvwxyz0'',
               api_title = ''Groceries'', api_createdAt = 40, api_updatedAt = 40,
               permission = None\<rparr>) 201,
       \<lparr>listsCollection = [demo_list,
          \<lparr>list_id = 3, userId = Some 7, shareId = ''abcdefghi'', viewId = Some ''stuvwxyz0'',
           title = ''Groceries'', createdAt = 40, updatedAt = 40\<rparr>],
        itemsCollection = [demo_item]\<rparr>, 252)"
  by code_simp

text \<open>
  C8 (bounded retry in list creation), evaluated where it fails.  When every pair of fresh
  identifiers is a pair of equal identifiers (an entropy source of zero bytes gives
  \<open>aaaaaaaaa\<close> twice), each iteration takes the \<open>continue\<close> branch and no attempt is
  counted: the loop has not returned after any number of iterations, and the handler
  answers neither 201 nor 500.  On \<open>tape_late\<close> the first six iterations are of that
  kind: the handler has not returned after six iterations and creates the list in the
  seventh.
\<close>

theorem createList_equal_ids_not_counted:
  "generateUniqueIds fuel (\<lambda>_. 0) pos attempts coll = None
 \<and> POST_lists fuel demo_verifyToken (Some ''token-u7'') (JStr ''Groceries'') now insertedId
      (\<lambda>_. 0) pos d = None
 \<and> POST_lists 6 demo_verifyToken (Some ''token-u7'') (JStr ''Groceries'') 40 3 tape_late 0 demo_db
      = None
 \<and> map_option (\<lambda>(r, d', pos'). (status r, length (listsCollection d'), pos'))
      (POST_lists 7 demo_verifyToken (Some ''token-u7'') (JStr ''Groceries'') 40 3 tape_late 0
         demo_db) = Some (201, 2, 252)"
  by (simp add: generateUniqueIds_zero POST_lists_def[of fuel] auth_u7 trim_Groceries
      demo_late_6 demo_late_7 json_def)

end
